theory Spec2Isabelle
  imports Complex_Main "HOL-Library.Multiset"
begin

section \<open>Strings and numbers of the source language\<close>

text \<open>
  The engines are TypeScript classes over plain records. Strings are modelled as HOL
  strings (lists of 8-bit characters) and stand for the ASCII text the engines' lexicons
  are written in: case conversion acts on the ASCII letters and \<open>\s\<close> is the ASCII
  white space. Code frequencies are counts and are modelled as integers; quotients
  (prevalence, similarity, centrality, completeness) are modelled as exact rationals.
  The only quotient of the source whose divisor can be zero without a guard is the
  average in \<open>detectSaturation\<close>; its result type has the value \<open>NaN\<close>.
\<close>

definition isSpace :: "char \<Rightarrow> bool" where
  "isSpace c = (c \<in> set [CHR 0x09, CHR 0x0A, CHR 0x0B, CHR 0x0C, CHR 0x0D, CHR '' ''])"

text \<open>The separator class \<open>[-_\s]\<close> of the name tokenizers.\<close>

definition isSep :: "char \<Rightarrow> bool" where
  "isSep c = (c = CHR ''-'' \<or> c = CHR ''_'' \<or> isSpace c)"

text \<open>
  \<open>s.split(/[-_\s]+/)\<close>: the fields between maximal runs of separators. A leading or
  trailing separator run gives an empty first or last field, and the empty string gives
  one empty field, so the result is never the empty list.
\<close>

function splitFrom :: "string \<Rightarrow> string \<Rightarrow> string list" where
  "splitFrom acc [] = [rev acc]"
| "splitFrom acc (c # cs) =
     (if isSep c then rev acc # splitFrom [] (dropWhile isSep cs)
      else splitFrom (c # acc) cs)"
  by pat_completeness auto
termination
  by (relation "measure (\<lambda>(acc, s). length s)")
     (auto simp: length_dropWhile_le le_imp_less_Suc)

definition splitWords :: "string \<Rightarrow> string list" where
  "splitWords s = splitFrom [] s"

text \<open>\<open>s.startsWith(p)\<close>, \<open>s.includes(sub)\<close> (called \<open>includesStr\<close> here), \<open>s.endsWith(suf)\<close>.\<close>

fun startsWith :: "string \<Rightarrow> string \<Rightarrow> bool" where
  "startsWith s [] = True"
| "startsWith [] (p # ps) = False"
| "startsWith (c # cs) (p # ps) = (c = p \<and> startsWith cs ps)"

fun includesStr :: "string \<Rightarrow> string \<Rightarrow> bool" where
  "includesStr [] sub = (sub = [])"
| "includesStr (c # cs) sub = (startsWith (c # cs) sub \<or> includesStr cs sub)"

definition endsWith :: "string \<Rightarrow> string \<Rightarrow> bool" where
  "endsWith s suf = startsWith (rev s) (rev suf)"

text \<open>A regular expression that is an alternation of literals, tested with \<open>.test(s)\<close>.\<close>

definition testAny :: "string list \<Rightarrow> string \<Rightarrow> bool" where
  "testAny alts s = list_ex (includesStr s) alts"

definition toLowerChar :: "char \<Rightarrow> char" where
  "toLowerChar c =
     (case map_of (zip ''ABCDEFGHIJKLMNOPQRSTUVWXYZ'' ''abcdefghijklmnopqrstuvwxyz'') c of
        Some l \<Rightarrow> l | None \<Rightarrow> c)"

definition toUpperChar :: "char \<Rightarrow> char" where
  "toUpperChar c =
     (case map_of (zip ''abcdefghijklmnopqrstuvwxyz'' ''ABCDEFGHIJKLMNOPQRSTUVWXYZ'') c of
        Some u \<Rightarrow> u | None \<Rightarrow> c)"

definition toLowerCase :: "string \<Rightarrow> string" where
  "toLowerCase s = map toLowerChar s"

definition toUpperCase :: "string \<Rightarrow> string" where
  "toUpperCase s = map toUpperChar s"

text \<open>\<open>s.trim()\<close>.\<close>

definition trim :: "string \<Rightarrow> string" where
  "trim s = rev (dropWhile isSpace (rev (dropWhile isSpace s)))"

text \<open>\<open>xs.join(sep)\<close>.\<close>

fun join :: "string \<Rightarrow> string list \<Rightarrow> string" where
  "join sep [] = []"
| "join sep [x] = x"
| "join sep (x # y # ys) = x @ sep @ join sep (y # ys)"

text \<open>A non-negative integer printed in decimal, as a template literal prints a length.\<close>

fun natToString :: "nat \<Rightarrow> string" where
  "natToString n =
     (if n < 10 then [''0123456789'' ! n]
      else natToString (n div 10) @ [''0123456789'' ! (n mod 10)])"

text \<open>
  A JavaScript \<open>Map\<close> keeps its keys in insertion order; it is modelled as an association
  list with distinct keys. \<open>mapSet\<close> is \<open>Map.prototype.set\<close>: an existing key keeps
  its position and gets the new value, a new key is appended.
\<close>

fun mapSet :: "('k \<times> 'v) list \<Rightarrow> 'k \<Rightarrow> 'v \<Rightarrow> ('k \<times> 'v) list" where
  "mapSet [] k v = [(k, v)]"
| "mapSet ((k', v') # m) k v = (if k' = k then (k, v) # m else (k', v') # mapSet m k v)"

section \<open>Coding engine\<close>

datatype CodeType = in_vivo | constructed | theoretical

record Code =
  name :: string
  defn :: string
  examples :: "string list"
  frequency :: int
  ctype :: CodeType

text \<open>
  The share of the first name's tokens that occur among the second name's tokens, over
  the larger token count. Both token lists have at least one element.
\<close>

definition similarity :: "Code \<Rightarrow> Code \<Rightarrow> rat" where
  "similarity code1 code2 =
     (let words1 = splitWords (name code1);
          words2 = splitWords (name code2);
          commonWords = filter (\<lambda>w. w \<in> set words2) words1
      in of_nat (length commonWords) / of_nat (max (length words1) (length words2)))"

definition codesAreSimilar :: "Code \<Rightarrow> Code \<Rightarrow> bool" where
  "codesAreSimilar code1 code2 = (similarity code1 code2 > 1 / 2)"

text \<open>
  The grouping loop shared by \<open>refineCodebook\<close> and \<open>groupCodesBySimilarity\<close>. A group
  is created with one member and only grows, so it is kept as its first member and the
  members pushed after it; the map key is the name of the code that opened the group.
  \<open>pushFirstSimilar\<close> is the inner loop: the code joins the first group whose first
  member it is similar to, and \<open>None\<close> is \<open>foundGroup = false\<close>.
\<close>

type_synonym CodeGroups = "(string \<times> Code \<times> Code list) list"

fun pushFirstSimilar :: "(Code \<Rightarrow> Code \<Rightarrow> bool) \<Rightarrow> Code \<Rightarrow> CodeGroups \<Rightarrow> CodeGroups option" where
  "pushFirstSimilar sim code [] = None"
| "pushFirstSimilar sim code ((groupKey, first, others) # groups) =
     (if sim code first then Some ((groupKey, first, others @ [code]) # groups)
      else (case pushFirstSimilar sim code groups of
              None \<Rightarrow> None
            | Some groups' \<Rightarrow> Some ((groupKey, first, others) # groups')))"

definition groupStep :: "(Code \<Rightarrow> Code \<Rightarrow> bool) \<Rightarrow> CodeGroups \<Rightarrow> Code \<Rightarrow> CodeGroups" where
  "groupStep sim groups code =
     (case pushFirstSimilar sim code groups of
        Some groups' \<Rightarrow> groups'
      | None \<Rightarrow> mapSet groups (name code) (code, []))"

definition groupBy :: "(Code \<Rightarrow> Code \<Rightarrow> bool) \<Rightarrow> Code list \<Rightarrow> CodeGroups" where
  "groupBy sim codes = foldl (groupStep sim) [] codes"

text \<open>
  \<open>selectBestCodeName\<close> sorts the group's array in place (a stable sort by name length)
  and returns the first name. \<open>refineCodebook\<close> calls it before it reads
  \<open>groupCodes[0]\<close> and the examples, so those are read from the sorted array.
\<close>

definition sortByNameLength :: "Code list \<Rightarrow> Code list" where
  "sortByNameLength codes = sort_key (\<lambda>c. length (name c)) codes"

definition selectBestCodeName :: "Code list \<Rightarrow> string" where
  "selectBestCodeName codes = name (hd (sortByNameLength codes))"

record Merge =
  mergeFrom :: "string list"
  mergeTo :: string
  reason :: string

definition mergedCode :: "Code \<Rightarrow> Code list \<Rightarrow> Code" where
  "mergedCode first others =
     (let groupCodes = first # others;
          sorted = sortByNameLength groupCodes
      in \<lparr> name = selectBestCodeName groupCodes,
           defn = defn (hd sorted),
           examples = take 5 (concat (map examples sorted)),
           frequency = foldl (\<lambda>sum c. sum + frequency c) 0 sorted,
           ctype = ctype (hd sorted) \<rparr>)"

record RefineResult =
  refined :: "Code list"
  merges :: "Merge list"

fun mergeGroups :: "CodeGroups \<Rightarrow> RefineResult \<Rightarrow> RefineResult" where
  "mergeGroups [] acc = acc"
| "mergeGroups ((groupKey, first, others) # groups) acc =
     (if length (first # others) > 1 then
        mergeGroups groups
          \<lparr> refined = refined acc @ [mergedCode first others],
            merges = merges acc @
              [\<lparr> mergeFrom = map name (sortByNameLength (first # others)),
                 mergeTo = name (mergedCode first others),
                 reason = ''Similar semantic meaning'' \<rparr>] \<rparr>
      else mergeGroups groups (acc\<lparr> refined := refined acc @ [first] \<rparr>))"

definition refineCodebook :: "Code list \<Rightarrow> RefineResult" where
  "refineCodebook codes =
     mergeGroups (groupBy codesAreSimilar codes) \<lparr> refined = [], merges = [] \<rparr>"

subsection \<open>In-vivo codes\<close>

text \<open>
  \<open>text.match(/"([^"]+)"/g)\<close>: the matches from left to right, each with its two quote
  characters. At a quote character the match needs at least one character other than a
  quote and then a closing quote; the search resumes after the closing quote, and at the
  next character when there is no match.
\<close>

definition dquote :: char where
  "dquote = CHR 0x22"

function matchQuotes :: "string \<Rightarrow> string list" where
  "matchQuotes [] = []"
| "matchQuotes (c # cs) =
     (if c = dquote \<and> takeWhile (\<lambda>d. d \<noteq> dquote) cs \<noteq> []
         \<and> dropWhile (\<lambda>d. d \<noteq> dquote) cs \<noteq> []
      then (c # takeWhile (\<lambda>d. d \<noteq> dquote) cs @ [dquote])
             # matchQuotes (tl (dropWhile (\<lambda>d. d \<noteq> dquote) cs))
      else matchQuotes cs)"
  by pat_completeness auto
termination
proof (relation "measure length")
  show "wf (measure length)" by simp
next
  fix c :: char and cs :: string
  have "length (tl (dropWhile (\<lambda>d. d \<noteq> dquote) cs)) \<le> length cs"
    using length_dropWhile_le [of "\<lambda>d. d \<noteq> dquote" cs] by simp
  then show "(tl (dropWhile (\<lambda>d. d \<noteq> dquote) cs), c # cs) \<in> measure length"
    by simp
next
  fix c :: char and cs :: string
  show "(cs, c # cs) \<in> measure length" by simp
qed

text \<open>\<open>quote.replace(/"/g, '').trim()\<close>.\<close>

definition cleanQuote :: "string \<Rightarrow> string" where
  "cleanQuote quote = trim (filter (\<lambda>d. d \<noteq> dquote) quote)"

text \<open>\<open>s.replace(/\s+/g, '-')\<close>: every maximal run of white space becomes one hyphen.\<close>

function replaceSpaces :: "string \<Rightarrow> string" where
  "replaceSpaces [] = []"
| "replaceSpaces (c # cs) =
     (if isSpace c then CHR ''-'' # replaceSpaces (dropWhile isSpace cs)
      else c # replaceSpaces cs)"
  by pat_completeness auto
termination
  by (relation "measure length") (auto simp: length_dropWhile_le le_imp_less_Suc)

definition quoteCode :: "string \<Rightarrow> string \<Rightarrow> Code" where
  "quoteCode text cleaned =
     \<lparr> name = replaceSpaces (toLowerCase cleaned),
       defn = ''In-vivo code: '' @ [dquote] @ cleaned @ [dquote],
       examples = [text],
       frequency = 1,
       ctype = in_vivo \<rparr>"

text \<open>The first loop of \<open>extractInVivoCodes\<close>, over the quotes found in the text.\<close>

fun quoteLoop :: "string \<Rightarrow> string list \<Rightarrow> Code list \<Rightarrow> Code list" where
  "quoteLoop text [] codes = codes"
| "quoteLoop text (quote # quotes) codes =
     (if length (cleanQuote quote) > 10 \<and> length (cleanQuote quote) < 50
      then quoteLoop text quotes (codes @ [quoteCode text (cleanQuote quote)])
      else quoteLoop text quotes codes)"

text \<open>
  \<open>/(feel|felt|feeling|think|thought|believe|believed)\s+(\w+)/gi\<close> at the start of a
  string: the length of the match, if there is one. After the verb the pattern needs
  white space, so at most one alternative can match at a position.
\<close>

definition isWordChar :: "char \<Rightarrow> bool" where
  "isWordChar c =
     (c \<in> set ''abcdefghijklmnopqrstuvwxyzABCDEFGHIJKLMNOPQRSTUVWXYZ0123456789_'')"

definition emotionVerbs :: "string list" where
  "emotionVerbs = [''feel'', ''felt'', ''feeling'', ''think'', ''thought'', ''believe'', ''believed'']"

definition matchVerbAt :: "string \<Rightarrow> string \<Rightarrow> nat option" where
  "matchVerbAt s verb =
     (let rest = drop (length verb) s;
          spaces = takeWhile isSpace rest;
          word = takeWhile isWordChar (dropWhile isSpace rest)
      in if startsWith (toLowerCase s) verb \<and> spaces \<noteq> [] \<and> word \<noteq> []
         then Some (length verb + length spaces + length word) else None)"

fun matchEmotionAt :: "string \<Rightarrow> string list \<Rightarrow> nat option" where
  "matchEmotionAt s [] = None"
| "matchEmotionAt s (verb # verbs) =
     (case matchVerbAt s verb of Some len \<Rightarrow> Some len | None \<Rightarrow> matchEmotionAt s verbs)"

text \<open>
  \<open>text.matchAll(emotionPatterns)\<close>: the matches with their start index. \<open>skip\<close> counts
  the characters still inside the previous match.
\<close>

fun emotionMatches :: "nat \<Rightarrow> nat \<Rightarrow> string \<Rightarrow> (nat \<times> string) list" where
  "emotionMatches skip index [] = []"
| "emotionMatches skip index (c # cs) =
     (if skip > 0 then emotionMatches (skip - 1) (Suc index) cs
      else (case matchEmotionAt (c # cs) emotionVerbs of
              Some len \<Rightarrow> (index, take len (c # cs)) # emotionMatches (len - 1) (Suc index) cs
            | None \<Rightarrow> emotionMatches 0 (Suc index) cs))"

text \<open>\<open>s.substring(from, to)\<close> for \<open>from \<le> to\<close>.\<close>

definition substring :: "string \<Rightarrow> nat \<Rightarrow> nat \<Rightarrow> string" where
  "substring s from_index to_index = take (to_index - from_index) (drop from_index s)"

definition emotionCode :: "string \<Rightarrow> nat \<times> string \<Rightarrow> Code" where
  "emotionCode text m =
     (let phrase = toLowerCase (snd m)
      in \<lparr> name = replaceSpaces phrase,
           defn = ''Emotional/cognitive expression: '' @ phrase,
           examples = [substring text (fst m) (fst m + 100)],
           frequency = 1,
           ctype = in_vivo \<rparr>)"

definition extractInVivoCodes :: "string \<Rightarrow> Code list" where
  "extractInVivoCodes text =
     quoteLoop text (matchQuotes text) [] @ map (emotionCode text) (emotionMatches 0 0 text)"

section \<open>Theme engine\<close>

datatype Theme = Theme
  (tname: string)
  (description: string)
  (supportingCodes: "string list")
  (prevalence: rat)
  (texamples: "string list")
  (subThemes: "Theme list option")

datatype Mode = inductiveMode | deductiveMode

datatype Depth = shallow | medium | deep

text \<open>The theme engine's own \<open>codesAreSimilar\<close>: the same overlap, above 0.3.\<close>

definition codesAreSimilar_theme :: "Code \<Rightarrow> Code \<Rightarrow> bool" where
  "codesAreSimilar_theme code1 code2 = (similarity code1 code2 > 3 / 10)"

definition groupCodesBySimilarity :: "Code list \<Rightarrow> CodeGroups" where
  "groupCodesBySimilarity codes = groupBy codesAreSimilar_theme codes"

text \<open>\<open>wordFreq.set(word, (wordFreq.get(word) || 0) + 1)\<close> for the words longer than 3.\<close>

definition countWord :: "(string \<times> nat) list \<Rightarrow> string \<Rightarrow> (string \<times> nat) list" where
  "countWord wordFreq word =
     (if length word > 3
      then mapSet wordFreq word ((case map_of wordFreq word of Some n \<Rightarrow> n | None \<Rightarrow> 0) + 1)
      else wordFreq)"

definition capitalize :: "string \<Rightarrow> string" where
  "capitalize w = (case w of [] \<Rightarrow> [] | c # cs \<Rightarrow> toUpperChar c # cs)"

definition generateThemeName :: "Code list \<Rightarrow> string" where
  "generateThemeName codes =
     (let wordFreq = foldl (\<lambda>m c. foldl countWord m (splitWords (name c))) [] codes;
          topWords = map fst (take 3 (sort_key (\<lambda>e. - int (snd e)) wordFreq))
      in join '' and '' (map capitalize topWords))"

definition generateThemeDescription :: "Code list \<Rightarrow> string" where
  "generateThemeDescription codes =
     ''This theme encompasses '' @ natToString (length codes) @ '' related codes: ''
       @ join '', '' (map name codes)
       @ ''. It represents a pattern of meaning across the data.''"

definition calculatePrevalence :: "Code list \<Rightarrow> Code list \<Rightarrow> rat" where
  "calculatePrevalence themeCodes allCodes =
     (let themeFrequency = foldl (\<lambda>sum c. sum + frequency c) 0 themeCodes;
          totalFrequency = foldl (\<lambda>sum c. sum + frequency c) 0 allCodes
      in if totalFrequency > 0 then of_int themeFrequency / of_int totalFrequency else 0)"

text \<open>
  \<open>array.sort((a, b) => b.prevalence - a.prevalence)\<close>: a stable sort, largest
  prevalence first.
\<close>

definition sortByPrevalence :: "Theme list \<Rightarrow> Theme list" where
  "sortByPrevalence themes = sort_key (\<lambda>t. - prevalence t) themes"

text \<open>
  \<open>identifySubThemes\<close> receives the codes of one theme and passes them on as the
  \<open>allCodes\<close> of \<open>calculatePrevalence\<close>.
\<close>

fun subThemeLoop :: "Code list \<Rightarrow> CodeGroups \<Rightarrow> Theme list" where
  "subThemeLoop codes [] = []"
| "subThemeLoop codes ((groupKey, first, others) # groups) =
     (let groupCodes = first # others
      in if length groupCodes \<ge> 2
         then Theme (generateThemeName groupCodes)
                (generateThemeDescription groupCodes)
                (map name groupCodes)
                (calculatePrevalence groupCodes codes)
                (take 2 (concat (map examples groupCodes)))
                None
              # subThemeLoop codes groups
         else subThemeLoop codes groups)"

definition identifySubThemes :: "Code list \<Rightarrow> Theme list" where
  "identifySubThemes codes = subThemeLoop codes (groupCodesBySimilarity codes)"

fun themeLoop :: "Code list \<Rightarrow> Depth \<Rightarrow> CodeGroups \<Rightarrow> Theme list" where
  "themeLoop codes depth [] = []"
| "themeLoop codes depth ((groupKey, first, others) # groups) =
     (let groupCodes = first # others
      in if length groupCodes < 2 then themeLoop codes depth groups
         else Theme (generateThemeName groupCodes)
                (generateThemeDescription groupCodes)
                (map name groupCodes)
                (calculatePrevalence groupCodes codes)
                (take 3 (concat (map examples groupCodes)))
                (if depth = deep \<and> length groupCodes > 5
                 then Some (identifySubThemes groupCodes) else None)
              # themeLoop codes depth groups)"

definition inductiveThemeExtraction :: "Code list \<Rightarrow> Depth \<Rightarrow> Theme list" where
  "inductiveThemeExtraction codes depth =
     sortByPrevalence (themeLoop codes depth (groupCodesBySimilarity codes))"

definition theoreticalFrameworks :: "(string \<times> string list) list" where
  "theoreticalFrameworks =
     [(''Challenges and Barriers'',
         [''difficult'', ''challenge'', ''problem'', ''barrier'', ''obstacle'', ''struggle'']),
      (''Strategies and Solutions'',
         [''solution'', ''strategy'', ''approach'', ''cope'', ''manage'', ''handle'']),
      (''Emotional Experiences'',
         [''feel'', ''emotion'', ''happy'', ''sad'', ''angry'', ''frustrated'', ''anxious'']),
      (''Relationships and Interactions'',
         [''relationship'', ''interaction'', ''connection'', ''communication'', ''support'']),
      (''Identity and Self-Concept'',
         [''identity'', ''self'', ''who'', ''personal'', ''individual''])]"

definition matchesFramework :: "string list \<Rightarrow> Code \<Rightarrow> bool" where
  "matchesFramework keywords c =
     list_ex (\<lambda>keyword. includesStr (name c) keyword
                \<or> includesStr (toLowerCase (defn c)) keyword) keywords"

fun frameworkLoop :: "Code list \<Rightarrow> (string \<times> string list) list \<Rightarrow> Theme list" where
  "frameworkLoop codes [] = []"
| "frameworkLoop codes ((frameworkName, keywords) # frameworks) =
     (let matchingCodes = filter (matchesFramework keywords) codes
      in if length matchingCodes > 0
         then Theme frameworkName
                ''Theme identified through deductive analysis based on theoretical framework''
                (map name matchingCodes)
                (calculatePrevalence matchingCodes codes)
                (take 3 (concat (map examples matchingCodes)))
                None
              # frameworkLoop codes frameworks
         else frameworkLoop codes frameworks)"

definition deductiveThemeExtraction :: "Code list \<Rightarrow> Depth \<Rightarrow> Theme list" where
  "deductiveThemeExtraction codes depth =
     sortByPrevalence (frameworkLoop codes theoreticalFrameworks)"

definition extractThemes :: "Code list \<Rightarrow> Mode \<Rightarrow> Depth \<Rightarrow> Theme list" where
  "extractThemes codes mode depth =
     (if mode = inductiveMode then inductiveThemeExtraction codes depth
      else deductiveThemeExtraction codes depth)"

subsection \<open>Saturation\<close>

datatype Level = codeLevel | themeLevel | theoreticalLevel

definition levelString :: "Level \<Rightarrow> string" where
  "levelString l = (case l of codeLevel \<Rightarrow> ''code'' | themeLevel \<Rightarrow> ''theme''
                      | theoreticalLevel \<Rightarrow> ''theoretical'')"

text \<open>
  A number of the source that may be \<open>NaN\<close>. The division \<open>0 / 0\<close> gives \<open>NaN\<close>,
  arithmetic on \<open>NaN\<close> gives \<open>NaN\<close>, \<open>Math.min\<close> of \<open>NaN\<close> is \<open>NaN\<close>, and every
  comparison with \<open>NaN\<close> is false.
\<close>

datatype jsnum = NaN | Num rat

text \<open>
  \<open>xs.reduce((a, b) => a + b, 0) / xs.length\<close> for a list of counts: with no element
  it is \<open>0 / 0\<close>.
\<close>

definition average :: "nat list \<Rightarrow> jsnum" where
  "average xs =
     (if length xs = 0 then NaN
      else Num (of_nat (foldl (+) 0 xs) / of_nat (length xs)))"

definition jsGreater :: "jsnum \<Rightarrow> rat \<Rightarrow> bool" where
  "jsGreater x r = (case x of NaN \<Rightarrow> False | Num q \<Rightarrow> q > r)"

text \<open>\<open>1 - Math.min(avgNewCodes / 5, 1)\<close>.\<close>

definition rateOf :: "jsnum \<Rightarrow> jsnum" where
  "rateOf avgNewCodes =
     (case avgNewCodes of NaN \<Rightarrow> NaN | Num a \<Rightarrow> Num (1 - min (a / 5) 1))"

record SaturationAnalysis =
  level :: Level
  saturated :: bool
  saturationRate :: jsnum
  newCodesPerSource :: "nat list"
  recommendation :: string

text \<open>
  The loop over the sources, in the key order of the map. The names of a source's new
  codes are added to \<open>seenCodes\<close> after the source has been counted.
\<close>

fun sourceLoop ::
  "(string \<times> Code list) list \<Rightarrow> string list \<Rightarrow> string set \<Rightarrow> nat list \<Rightarrow> nat list" where
  "sourceLoop codesBySource [] seenCodes perSource = perSource"
| "sourceLoop codesBySource (source # sources) seenCodes perSource =
     (let sourceCodes = (case map_of codesBySource source of Some cs \<Rightarrow> cs | None \<Rightarrow> []);
          newCodes = filter (\<lambda>c. name c \<notin> seenCodes) sourceCodes
      in sourceLoop codesBySource sources
           (seenCodes \<union> set (map name newCodes))
           (perSource @ [length newCodes]))"

definition detectSaturation :: "Level \<Rightarrow> (string \<times> Code list) list \<Rightarrow> SaturationAnalysis" where
  "detectSaturation lvl codesBySource =
     (let sources = map fst codesBySource;
          newCodes = sourceLoop codesBySource sources {} [];
          recentSources = drop (length newCodes - 3) newCodes;
          avgNewCodes = average recentSources;
          rate = rateOf avgNewCodes;
          isSaturated = jsGreater rate (85 / 100)
      in \<lparr> level = lvl,
           saturated = isSaturated,
           saturationRate = rate,
           newCodesPerSource = newCodes,
           recommendation =
             (if isSaturated
              then ''Saturation achieved at '' @ levelString lvl
                     @ '' level. You likely have enough data.''
              else if jsGreater rate (7 / 10)
              then ''Approaching saturation. 2-3 more data sources recommended.''
              else ''Not yet saturated. Continue data collection for robust findings.'') \<rparr>)"

subsection \<open>Negative cases\<close>

datatype Strength = weak | moderate | strong

record NegativeCase =
  caseCode :: string
  contradiction :: string
  strength :: Strength

record NegativeCases =
  negativeCases :: "NegativeCase list"
  caseRecommendation :: string

definition oppositions :: "(string \<times> string \<times> Strength) list" where
  "oppositions =
     [(''positive'', ''negative'', strong),
      (''success'', ''failure'', strong),
      (''easy'', ''difficult'', moderate),
      (''support'', ''obstacle'', moderate),
      (''benefit'', ''cost'', moderate)]"

definition contradictionReason :: "string \<Rightarrow> string \<Rightarrow> string" where
  "contradictionReason a b =
     ''Theme emphasizes '' @ [dquote] @ a @ [dquote] @ '' but code suggests ''
       @ [dquote] @ b @ [dquote]"

fun oppositionLoop ::
  "string \<Rightarrow> string \<Rightarrow> string \<Rightarrow> (string \<times> string \<times> Strength) list
     \<Rightarrow> (string \<times> Strength) option" where
  "oppositionLoop themeName codeName codeDefinition [] = None"
| "oppositionLoop themeName codeName codeDefinition ((positive, negative, s) # rest) =
     (if includesStr themeName positive
         \<and> (includesStr codeName negative \<or> includesStr codeDefinition negative)
      then Some (contradictionReason positive negative, s)
      else if includesStr themeName negative
         \<and> (includesStr codeName positive \<or> includesStr codeDefinition positive)
      then Some (contradictionReason negative positive, s)
      else oppositionLoop themeName codeName codeDefinition rest)"

definition detectContradiction :: "string \<Rightarrow> Code \<Rightarrow> (string \<times> Strength) option" where
  "detectContradiction themeName c =
     oppositionLoop themeName (toLowerCase (name c)) (toLowerCase (defn c)) oppositions"

fun negativeCaseLoop :: "Theme \<Rightarrow> Code list \<Rightarrow> NegativeCase list" where
  "negativeCaseLoop theme [] = []"
| "negativeCaseLoop theme (c # allCodes) =
     (if name c \<in> set (supportingCodes theme) then negativeCaseLoop theme allCodes
      else (case detectContradiction (toLowerCase (tname theme)) c of
              None \<Rightarrow> negativeCaseLoop theme allCodes
            | Some (why, s) \<Rightarrow>
                \<lparr> caseCode = name c, contradiction = why, strength = s \<rparr>
                  # negativeCaseLoop theme allCodes))"

definition passesThreshold :: "Strength \<Rightarrow> NegativeCase \<Rightarrow> bool" where
  "passesThreshold threshold nc =
     (if threshold = weak then True
      else if threshold = moderate then strength nc \<noteq> weak
      else strength nc = strong)"

definition findNegativeCases :: "Theme \<Rightarrow> Code list \<Rightarrow> Strength \<Rightarrow> NegativeCases" where
  "findNegativeCases theme allCodes threshold =
     (let filtered = filter (passesThreshold threshold) (negativeCaseLoop theme allCodes)
      in \<lparr> negativeCases = filtered,
           caseRecommendation =
             (if length filtered = 0
              then ''No significant negative cases found. Theme appears robust.''
              else if length filtered \<le> 2
              then natToString (length filtered)
                     @ '' negative case(s) found. Consider refining theme definition to account for these exceptions.''
              else natToString (length filtered)
                     @ '' negative cases found. Theme may need significant revision or should be split into multiple themes.'') \<rparr>)"

section \<open>Theory engine\<close>

datatype Paradigm = constructivist | objectivist

record Category =
  catName :: string
  catDescription :: string
  properties :: "string list"
  dimensions :: "(string \<times> string) list"
  relatedCodes :: "string list"
  relatedCategories :: "string list"
  catExamples :: "string list"

record AxialCodingResult =
  phenomenon :: string
  causalConditions :: "string list"
  axialContext :: "string list"
  interveningConditions :: "string list"
  actionStrategies :: "string list"
  consequences :: "string list"

datatype RelationshipType = causes | leads_to | influences | part_of | contradicts

record Relationship =
  relatedCategory :: string
  relationshipType :: RelationshipType
  relDescription :: string

record CoreCategory =
  coreName :: string
  coreDescription :: string
  centrality :: rat
  relationships :: "Relationship list"
  theoreticalMemo :: string

datatype Stage = open_coding | axial_coding | selective_coding | theory_integration

record GroundedTheoryResult =
  coreCategory :: CoreCategory
  supportingCategories :: "Category list"
  theoreticalFramework :: string
  storyline :: string
  stage :: Stage
  completeness :: rat
  recommendations :: "string list"

text \<open>The two \<open>throw new Error(...)\<close> of \<open>identifyCoreCategory\<close>.\<close>

datatype TheoryError = NoCategoriesFound | CoreCategoryNotFound string

definition newline :: string where
  "newline = [CHR 0x0A]"

subsection \<open>Stage 1: open coding\<close>

definition inferCategoryName :: "Code \<Rightarrow> string" where
  "inferCategoryName c =
     (let nm = toLowerCase (name c);
          definition = toLowerCase (defn c)
      in if endsWith nm ''ing'' \<or> testAny [''process'', ''action'', ''doing''] definition
         then ''processes''
         else if testAny [''condition'', ''situation'', ''context'', ''when''] definition
                 \<or> testAny [''condition''] nm
         then ''conditions''
         else if testAny [''strategy'', ''approach'', ''cope'', ''manage'', ''handle''] definition
                 \<or> testAny [''strategy'', ''coping''] nm
         then ''strategies''
         else if testAny [''emotion'', ''feel'', ''emotion''] definition
                 \<or> testAny [''emotion'', ''feel''] nm
         then ''emotions''
         else if testAny [''challenge'', ''problem'', ''difficulty'', ''barrier''] definition
                 \<or> testAny [''challenge'', ''problem''] nm
         then ''challenges''
         else if testAny [''outcome'', ''result'', ''consequence'', ''effect''] definition
                 \<or> testAny [''outcome'', ''result''] nm
         then ''outcomes''
         else if testAny [''relationship'', ''interaction'', ''connection''] definition
                 \<or> testAny [''relational''] nm
         then ''relationships''
         else (case filter (\<lambda>w. length w > 3) (splitWords nm) of
                 [] \<Rightarrow> ''miscellaneous''
               | w # _ \<Rightarrow> w))"

text \<open>\<open>groups.get(k)!.push(x)\<close> on a map of arrays.\<close>

fun mapPush :: "('k \<times> 'v list) list \<Rightarrow> 'k \<Rightarrow> 'v list \<Rightarrow> ('k \<times> 'v list) list" where
  "mapPush [] k xs = []"
| "mapPush ((k', v) # m) k xs = (if k' = k then (k', v @ xs) # m else (k', v) # mapPush m k xs)"

definition categoryStep :: "(string \<times> Code list) list \<Rightarrow> Code \<Rightarrow> (string \<times> Code list) list" where
  "categoryStep groups c =
     (let categoryName = inferCategoryName c;
          groups' = (if map_of groups categoryName = None
                     then mapSet groups categoryName [] else groups)
      in mapPush groups' categoryName [c])"

definition categoriesAreSimilar :: "string \<Rightarrow> string \<Rightarrow> bool" where
  "categoriesAreSimilar cat1 cat2 =
     (if cat1 = cat2 then True
      else if cat1 = cat2 @ ''s'' \<or> cat2 = cat1 @ ''s'' then True
      else if cat1 = cat2 @ ''es'' \<or> cat2 = cat1 @ ''es'' then True
      else (let words1 = splitWords cat1;
                words2 = splitWords cat2;
                common = filter (\<lambda>w. w \<in> set words2) words1
            in length common > 0))"

text \<open>
  The inner loop of \<open>mergeSimilarCategories\<close>: the codes of the category are pushed to
  the first merged entry with a similar key; \<open>None\<close> is \<open>foundMerge = false\<close>.
\<close>

fun pushFirstMerge ::
  "string \<Rightarrow> Code list \<Rightarrow> (string \<times> Code list) list \<Rightarrow> (string \<times> Code list) list option" where
  "pushFirstMerge category cs [] = None"
| "pushFirstMerge category cs ((mergedKey, mergedCodes) # merged) =
     (if categoriesAreSimilar category mergedKey
      then Some ((mergedKey, mergedCodes @ cs) # merged)
      else (case pushFirstMerge category cs merged of
              None \<Rightarrow> None
            | Some merged' \<Rightarrow> Some ((mergedKey, mergedCodes) # merged')))"

text \<open>
  \<open>groups.get(category) || []\<close> is read from the map built by
  \<open>groupCodesIntoCategories\<close>. An array stored in \<open>merged\<close> is the array of \<open>groups\<close>
  under the same key, and that key is not read from \<open>groups\<close> again.
\<close>

fun mergeLoop ::
  "(string \<times> Code list) list \<Rightarrow> string list \<Rightarrow> (string \<times> Code list) list
     \<Rightarrow> (string \<times> Code list) list" where
  "mergeLoop groups [] merged = merged"
| "mergeLoop groups (category # categoryNames) merged =
     (let cs = (case map_of groups category of Some v \<Rightarrow> v | None \<Rightarrow> [])
      in case pushFirstMerge category cs merged of
           Some merged' \<Rightarrow> mergeLoop groups categoryNames merged'
         | None \<Rightarrow> mergeLoop groups categoryNames (mapSet merged category cs))"

definition mergeSimilarCategories :: "(string \<times> Code list) list \<Rightarrow> (string \<times> Code list) list" where
  "mergeSimilarCategories groups = mergeLoop groups (map fst groups) []"

definition groupCodesIntoCategories :: "Code list \<Rightarrow> (string \<times> Code list) list" where
  "groupCodesIntoCategories codes = mergeSimilarCategories (foldl categoryStep [] codes)"

definition generateCategoryDescription :: "Code list \<Rightarrow> Paradigm \<Rightarrow> string" where
  "generateCategoryDescription codes paradigm =
     (let prefix = (if paradigm = constructivist
                    then ''This category represents participants'' @ [CHR 0x27] @ '' experiences of''
                    else ''This category describes the phenomenon of'')
      in prefix @ '' '' @ join '', '' (map name codes) @ ''. It emerged from ''
           @ natToString (length codes) @ '' codes across the data.'')"

definition isCommonWord :: "string \<Rightarrow> bool" where
  "isCommonWord word =
     (toLowerCase word \<in> set [''the'', ''and'', ''for'', ''with'', ''from'', ''that'', ''this'',
        ''have'', ''has'', ''had'', ''was'', ''were'', ''been'', ''being''])"

text \<open>\<open>Set.prototype.add\<close> on a set kept in insertion order.\<close>

definition setAdd :: "'a list \<Rightarrow> 'a \<Rightarrow> 'a list" where
  "setAdd xs x = (if x \<in> set xs then xs else xs @ [x])"

definition identifyProperties :: "Code list \<Rightarrow> string list" where
  "identifyProperties codes =
     take 5 (foldl (\<lambda>props c.
                foldl (\<lambda>props word.
                         if length word > 3 \<and> \<not> isCommonWord word then setAdd props word
                         else props)
                  props (splitWords (name c)))
              [] codes)"

definition inferDimensionalRange :: "string \<Rightarrow> Code list \<Rightarrow> string" where
  "inferDimensionalRange property codes =
     (if list_ex (\<lambda>c. testAny [''low'', ''high'', ''strong'', ''weak'', ''intense'', ''mild'']
                         (toLowerCase (defn c))) codes
      then ''low to high''
      else if list_ex (\<lambda>c. testAny [''often'', ''sometimes'', ''rarely'', ''always'', ''never'']
                              (toLowerCase (defn c))) codes
      then ''rarely to frequently''
      else ''varies across contexts'')"

definition identifyDimensions :: "Code list \<Rightarrow> (string \<times> string) list" where
  "identifyDimensions codes =
     map (\<lambda>property. (property, inferDimensionalRange property codes)) (identifyProperties codes)"

fun categoryLoop :: "Paradigm \<Rightarrow> (string \<times> Code list) list \<Rightarrow> Category list" where
  "categoryLoop paradigm [] = []"
| "categoryLoop paradigm ((categoryName, categoryCodes) # groups) =
     (if length categoryCodes < 1 then categoryLoop paradigm groups
      else \<lparr> catName = categoryName,
             catDescription = generateCategoryDescription categoryCodes paradigm,
             properties = identifyProperties categoryCodes,
             dimensions = identifyDimensions categoryCodes,
             relatedCodes = map name categoryCodes,
             relatedCategories = [],
             catExamples = take 3 (concat (map examples categoryCodes)) \<rparr>
           # categoryLoop paradigm groups)"

definition identifyCategories :: "Code list \<Rightarrow> Paradigm \<Rightarrow> Category list" where
  "identifyCategories codes paradigm = categoryLoop paradigm (groupCodesIntoCategories codes)"

subsection \<open>Stage 2: axial coding\<close>

text \<open>The names of the other categories (or of all categories) that contain one of the terms.\<close>

definition namesWith :: "string list \<Rightarrow> Category list \<Rightarrow> string list" where
  "namesWith terms cats = map catName (filter (\<lambda>other. testAny terms (catName other)) cats)"

definition codesWith :: "string list \<Rightarrow> Code list \<Rightarrow> string list" where
  "codesWith terms codes =
     take 3 (map name (filter (\<lambda>c. testAny terms (toLowerCase (defn c))) codes))"

definition identifyCausalConditions :: "Category \<Rightarrow> Category list \<Rightarrow> Code list \<Rightarrow> string list" where
  "identifyCausalConditions category allCategories codes =
     namesWith [''condition'', ''cause'']
         (filter (\<lambda>other. catName other \<noteq> catName category) allCategories)
       @ codesWith [''because'', ''due to'', ''caused by'', ''result of'', ''led to''] codes"

definition identifyContext :: "Category \<Rightarrow> Category list \<Rightarrow> Code list \<Rightarrow> string list" where
  "identifyContext category allCategories codes =
     namesWith [''context'', ''situation''] allCategories
       @ codesWith [''when'', ''where'', ''situation'', ''context'', ''environment''] codes"

definition identifyInterveningConditions :: "Category \<Rightarrow> Category list \<Rightarrow> string list" where
  "identifyInterveningConditions category allCategories =
     namesWith [''factor'', ''influence'', ''barrier'']
       (filter (\<lambda>other. catName other \<noteq> catName category) allCategories)"

definition identifyActionStrategies :: "Category \<Rightarrow> Category list \<Rightarrow> string list" where
  "identifyActionStrategies category allCategories =
     namesWith [''strategy'', ''coping'', ''approach'', ''process''] allCategories"

definition identifyConsequences :: "Category \<Rightarrow> Category list \<Rightarrow> Code list \<Rightarrow> string list" where
  "identifyConsequences category allCategories codes =
     namesWith [''outcome'', ''result'', ''consequence'', ''effect''] allCategories
       @ codesWith [''result'', ''outcome'', ''led to'', ''caused'', ''effect''] codes"

definition analyzeParadigmModel :: "Category \<Rightarrow> Category list \<Rightarrow> Code list \<Rightarrow> AxialCodingResult" where
  "analyzeParadigmModel category allCategories codes =
     \<lparr> phenomenon = catName category,
       causalConditions = identifyCausalConditions category allCategories codes,
       axialContext = identifyContext category allCategories codes,
       interveningConditions = identifyInterveningConditions category allCategories,
       actionStrategies = identifyActionStrategies category allCategories,
       consequences = identifyConsequences category allCategories codes \<rparr>"

definition performAxialCoding :: "Category list \<Rightarrow> Code list \<Rightarrow> AxialCodingResult list" where
  "performAxialCoding categories codes =
     map (\<lambda>category. analyzeParadigmModel category categories codes) categories"

subsection \<open>Stage 3: selective coding\<close>

definition categoryScore :: "Category \<Rightarrow> AxialCodingResult list \<Rightarrow> rat" where
  "categoryScore category axialResults =
     (let score = of_nat (length (relatedCodes category))
      in case find (\<lambda>ar. phenomenon ar = catName category) axialResults of
           None \<Rightarrow> score
         | Some connections \<Rightarrow>
             score + of_nat (length (causalConditions connections)) * 2
                   + of_nat (length (consequences connections)) * 2
                   + of_nat (length (actionStrategies connections)) * (3 / 2)
                   + of_nat (length (axialContext connections))
                   + of_nat (length (interveningConditions connections)))"

definition categoryScores :: "Category list \<Rightarrow> AxialCodingResult list \<Rightarrow> (string \<times> rat) list" where
  "categoryScores categories axialResults =
     foldl (\<lambda>scores category. mapSet scores (catName category) (categoryScore category axialResults))
       [] categories"

definition coreRelationships :: "string \<Rightarrow> AxialCodingResult option \<Rightarrow> Relationship list" where
  "coreRelationships nm coreAxial =
     (case coreAxial of
        None \<Rightarrow> []
      | Some ax \<Rightarrow>
          map (\<lambda>cause. \<lparr> relatedCategory = cause, relationshipType = causes,
                 relDescription = cause @ '' contributes to the emergence of '' @ nm \<rparr>)
            (causalConditions ax)
          @ map (\<lambda>consequence. \<lparr> relatedCategory = consequence, relationshipType = leads_to,
                 relDescription = nm @ '' results in '' @ consequence \<rparr>)
            (consequences ax)
          @ map (\<lambda>strategy. \<lparr> relatedCategory = strategy, relationshipType = influences,
                 relDescription = nm @ '' is managed through '' @ strategy \<rparr>)
            (actionStrategies ax))"

definition generateTheoreticalMemo :: "Category \<Rightarrow> AxialCodingResult option \<Rightarrow> string \<Rightarrow> string" where
  "generateTheoreticalMemo category axialResult researchQuestion =
     ''THEORETICAL MEMO: '' @ toUpperCase (catName category) @ newline @ newline
     @ ''Research Question: '' @ researchQuestion @ newline @ newline
     @ ''The core category '' @ [dquote] @ catName category @ [dquote]
     @ '' emerged as the central phenomenon ''
     @ ''organizing this grounded theory. ''
     @ (case axialResult of
          None \<Rightarrow> []
        | Some ax \<Rightarrow>
            (if length (causalConditions ax) > 0
             then ''It appears to be caused or influenced by: ''
                    @ join '', '' (causalConditions ax) @ ''. ''
             else [])
            @ (if length (axialContext ax) > 0
               then ''This occurs within the context of: ''
                      @ join '', '' (axialContext ax) @ ''. ''
               else [])
            @ (if length (actionStrategies ax) > 0
               then ''Participants respond through strategies such as: ''
                      @ join '', '' (actionStrategies ax) @ ''. ''
               else [])
            @ (if length (consequences ax) > 0
               then ''The consequences include: '' @ join '', '' (consequences ax) @ ''. ''
               else []))
     @ newline @ newline @ ''This category integrates ''
     @ natToString (length (relatedCodes category)) @ '' codes ''
     @ ''and provides a theoretical explanation for the phenomenon under study.''"

text \<open>
  \<open>entries.sort((a, b) => b[1] - a[1])\<close>: a stable sort, highest score first.
\<close>

definition sortByScore :: "(string \<times> rat) list \<Rightarrow> (string \<times> rat) list" where
  "sortByScore scores = sort_key (\<lambda>e. - snd e) scores"

definition identifyCoreCategory ::
  "Category list \<Rightarrow> AxialCodingResult list \<Rightarrow> string \<Rightarrow> TheoryError + CoreCategory" where
  "identifyCoreCategory categories axialResults researchQuestion =
     (let scores = categoryScores categories axialResults
      in case sortByScore scores of
           [] \<Rightarrow> Inl NoCategoriesFound
         | (nm, coreScore) # _ \<Rightarrow>
             (case find (\<lambda>c. catName c = nm) categories of
                None \<Rightarrow> Inl (CoreCategoryNotFound nm)
              | Some category \<Rightarrow>
                  (let coreAxial = find (\<lambda>ar. phenomenon ar = nm) axialResults;
                       totalScore = foldl (+) 0 (map snd scores)
                   in Inr \<lparr> coreName = nm,
                            coreDescription = catDescription category,
                            centrality = (if totalScore > 0 then coreScore / totalScore else 0),
                            relationships = coreRelationships nm coreAxial,
                            theoreticalMemo =
                              generateTheoreticalMemo category coreAxial researchQuestion \<rparr>)))"

subsection \<open>Stage 4: theory integration\<close>

definition generateTheoreticalFramework ::
  "CoreCategory \<Rightarrow> Category list \<Rightarrow> AxialCodingResult list \<Rightarrow> Paradigm \<Rightarrow> string" where
  "generateTheoreticalFramework core categories axialResults paradigm =
     (if paradigm = constructivist
      then ''This grounded theory, constructed from participants'' @ [CHR 0x27]
             @ '' lived experiences, ''
      else ''This grounded theory, derived from systematic data analysis, '')
     @ ''proposes that '' @ [dquote] @ coreName core @ [dquote]
     @ '' serves as the core organizing concept. ''
     @ newline @ newline @ ''The theory identifies '' @ natToString (length categories)
     @ '' major categories that interact ''
     @ ''to explain the phenomenon. These categories are: ''
     @ join '', '' (map catName categories) @ ''. ''
     @ newline @ newline @ ''The relationships between categories follow this pattern:'' @ newline
     @ concat (map (\<lambda>rel. ''- '' @ relDescription rel @ newline) (relationships core))
     @ newline @ ''This theoretical framework provides a substantive explanation of the processes ''
     @ ''and patterns observed in the data.''"

definition generateStoryline ::
  "CoreCategory \<Rightarrow> Category list \<Rightarrow> AxialCodingResult list \<Rightarrow> string \<Rightarrow> string" where
  "generateStoryline core categories axialResults researchQuestion =
     ''GROUNDED THEORY STORYLINE'' @ newline @ newline
     @ ''Addressing the research question '' @ [dquote] @ researchQuestion @ [dquote] @ '', ''
     @ ''this theory explains how '' @ coreName core @ '' operates as the central process.''
     @ newline @ newline
     @ (case find (\<lambda>ar. phenomenon ar = coreName core) axialResults of
          None \<Rightarrow> []
        | Some coreAxial \<Rightarrow>
            (if length (causalConditions coreAxial) > 0 \<or> length (axialContext coreAxial) > 0
             then ''The process begins when certain conditions are present. ''
                  @ (if length (causalConditions coreAxial) > 0
                     then ''Causal factors include ''
                            @ join '', '' (causalConditions coreAxial) @ ''. ''
                     else [])
                  @ (if length (axialContext coreAxial) > 0
                     then ''This occurs within contexts characterized by ''
                            @ join '', '' (axialContext coreAxial) @ ''. ''
                     else [])
                  @ newline @ newline
             else [])
            @ (if length (actionStrategies coreAxial) > 0
               then ''In response to these conditions, participants engage in various strategies. ''
                    @ ''Key approaches include '' @ join '', '' (actionStrategies coreAxial) @ ''. ''
                    @ (if length (interveningConditions coreAxial) > 0
                       then ''These strategies are shaped by intervening factors such as ''
                              @ join '', '' (interveningConditions coreAxial) @ ''. ''
                       else [])
                    @ newline @ newline
               else [])
            @ (if length (consequences coreAxial) > 0
               then ''The outcomes of this process include ''
                    @ join '', '' (consequences coreAxial) @ ''. ''
                    @ ''These consequences may, in turn, influence future iterations of the process, ''
                    @ ''creating a dynamic and evolving pattern.'' @ newline @ newline
               else []))
     @ ''This integrated storyline demonstrates how the categories work together ''
     @ ''to form a coherent theoretical explanation.''"

definition assessTheoryCompleteness ::
  "CoreCategory \<Rightarrow> Category list \<Rightarrow> AxialCodingResult list \<Rightarrow> rat" where
  "assessTheoryCompleteness core categories axialResults =
     (let score = 20
            + of_nat (min (length categories * 4) 20)
            + of_nat (min (length (relationships core) * 5) 20)
            + of_nat (min (length axialResults * 4) 20)
            + centrality core * 20;
          maxScore = 20 + 20 + 20 + 20 + 20
      in min (score / maxScore) 1)"

definition generateRecommendations :: "rat \<Rightarrow> CoreCategory \<Rightarrow> Category list \<Rightarrow> string list" where
  "generateRecommendations completeness_value core categories =
     [if completeness_value < 6 / 10
      then ''Theory is incomplete. Continue data collection and coding to develop more robust categories.''
      else if completeness_value < 8 / 10
      then ''Theory is developing well. Focus on refining relationships between categories.''
      else ''Theory is well-developed and ready for validation and refinement.'']
     @ (if length (relationships core) < 3
        then [''Consider exploring more relationships between the core category and other categories.'']
        else [])
     @ (if length categories < 5
        then [''Theory might benefit from identifying additional categories through further analysis.'']
        else [])
     @ (if centrality core < 1 / 2
        then [''The identified core category may not be sufficiently central. Consider if another category better integrates the theory.'']
        else [])
     @ [''Write detailed theoretical memos to document your analytical decisions.'',
        ''Consider member checking by sharing preliminary findings with participants.'']"

definition integrateTheory ::
  "CoreCategory \<Rightarrow> Category list \<Rightarrow> AxialCodingResult list \<Rightarrow> string \<Rightarrow> Paradigm
     \<Rightarrow> GroundedTheoryResult" where
  "integrateTheory core categories axialResults researchQuestion paradigm =
     (let completeness_value = assessTheoryCompleteness core categories axialResults
      in \<lparr> coreCategory = core,
           supportingCategories = categories,
           theoreticalFramework =
             generateTheoreticalFramework core categories axialResults paradigm,
           storyline = generateStoryline core categories axialResults researchQuestion,
           stage = theory_integration,
           completeness = completeness_value,
           recommendations = generateRecommendations completeness_value core categories \<rparr>)"

text \<open>The optional \<open>themes\<close> parameter is destructured and not used.\<close>

definition buildGroundedTheory ::
  "Code list \<Rightarrow> Theme list option \<Rightarrow> string \<Rightarrow> Paradigm \<Rightarrow> TheoryError + GroundedTheoryResult" where
  "buildGroundedTheory codes themes researchQuestion paradigm =
     (let categories = identifyCategories codes paradigm;
          axialResults = performAxialCoding categories codes
      in case identifyCoreCategory categories axialResults researchQuestion of
           Inl err \<Rightarrow> Inl err
         | Inr core \<Rightarrow>
             Inr (integrateTheory core categories axialResults researchQuestion paradigm))"

section \<open>Notions used in the statements\<close>

text \<open>
  The codes held by a grouping map, group after group, and the invariant of the grouping
  loop: every group is stored under the name of its first member.
\<close>

definition members :: "CodeGroups \<Rightarrow> Code list" where
  "members groups = concat (map (\<lambda>(k, f, os). f # os) groups)"

definition goodKeys :: "CodeGroups \<Rightarrow> bool" where
  "goodKeys groups = list_all (\<lambda>(k, f, os). k = name f) groups"

text \<open>No code of the list is similar (overlap above 0.5) to a code before it.\<close>

fun noLaterSimilar :: "Code list \<Rightarrow> bool" where
  "noLaterSimilar [] = True"
| "noLaterSimilar (c # cs) = (list_all (\<lambda>d. \<not> codesAreSimilar d c) cs \<and> noLaterSimilar cs)"

text \<open>
  In the grouping of the first run, no member of a group has a strictly shorter name than
  the code that opened the group.
\<close>

definition openersShortest :: "Code list \<Rightarrow> bool" where
  "openersShortest codes =
     list_all (\<lambda>(k, first, others).
                 list_all (\<lambda>c. length (name first) \<le> length (name c)) others)
       (groupBy codesAreSimilar codes)"

text \<open>A number of the source lies in the interval from 0 to 1; \<open>NaN\<close> does not.\<close>

definition inUnitInterval :: "jsnum \<Rightarrow> bool" where
  "inUnitInterval x = (case x of NaN \<Rightarrow> False | Num q \<Rightarrow> 0 \<le> q \<and> q \<le> 1)"

text \<open>Example inputs: six codes of one group and a seventh code outside it.\<close>

definition codeNamed :: "string \<Rightarrow> Code" where
  "codeNamed n = \<lparr> name = n, defn = [], examples = [], frequency = 1, ctype = constructed \<rparr>"

definition stressCodes :: "Code list" where
  "stressCodes = map codeNamed
     [''stress-a'', ''stress-b'', ''stress-c'', ''stress-d'', ''stress-e'', ''stress-f'', ''zzz'']"

text \<open>
  A well-formed result of \<open>buildGroundedTheory\<close>, after the data model: the core category
  is one of the supporting categories, every category has at least one code, the
  centrality is above 0 and at most 1, the completeness is from 0 to 1, the stage is the
  final one, and there is a first recommendation.
\<close>

definition wellFormedResult :: "GroundedTheoryResult \<Rightarrow> bool" where
  "wellFormedResult r =
     (coreName (coreCategory r) \<in> set (map catName (supportingCategories r))
      \<and> list_all (\<lambda>c. relatedCodes c \<noteq> []) (supportingCategories r)
      \<and> 0 < centrality (coreCategory r) \<and> centrality (coreCategory r) \<le> 1
      \<and> 0 \<le> completeness r \<and> completeness r \<le> 1
      \<and> stage r = theory_integration
      \<and> recommendations r \<noteq> [])"

section \<open>Properties of the coding engine\<close>

lemma splitFrom_nonempty: "splitFrom acc s \<noteq> []"
  by (induction acc s rule: splitFrom.induct) auto

lemma similarity_same_name:
  assumes "name a = name b"
  shows "similarity a b = 1"
proof -
  have "splitWords (name b) \<noteq> []"
    by (simp add: splitWords_def splitFrom_nonempty)
  then have "length (splitWords (name b)) > 0" by simp
  then show ?thesis
    using assms by (simp add: similarity_def Let_def)
qed

lemma codesAreSimilar_same_name: "name a = name b \<Longrightarrow> codesAreSimilar a b"
  by (simp add: codesAreSimilar_def similarity_same_name)

lemma mapSet_fresh: "k \<notin> fst ` set m \<Longrightarrow> mapSet m k v = m @ [(k, v)]"
  by (induction m) auto

lemma pushFirstSimilar_None:
  "pushFirstSimilar sim code groups = None \<Longrightarrow> (k, f, os) \<in> set groups \<Longrightarrow> \<not> sim code f"
  by (induction groups) (auto split: if_splits option.splits)

lemma pushFirstSimilar_Some:
  "pushFirstSimilar sim code groups = Some groups' \<Longrightarrow>
     length groups' = length groups \<and> mset (members groups') = mset (members groups) + {#code#}
     \<and> (goodKeys groups \<longrightarrow> goodKeys groups')"
  by (induction groups arbitrary: groups')
     (auto simp: members_def goodKeys_def split: if_splits option.splits)

lemma groupStep_fresh:
  assumes refl: "\<And>a b. name a = name b \<Longrightarrow> sim a b"
    and good: "goodKeys groups"
    and none: "pushFirstSimilar sim code groups = None"
  shows "groupStep sim groups code = groups @ [(name code, code, [])]"
proof -
  have "name code \<notin> fst ` set groups"
  proof
    assume "name code \<in> fst ` set groups"
    then obtain f os where in_g: "(name code, f, os) \<in> set groups" by force
    with good have "name code = name f"
      by (auto simp: goodKeys_def list_all_iff)
    then have "sim code f" by (rule refl)
    with pushFirstSimilar_None [OF none in_g] show False by simp
  qed
  then show ?thesis
    by (simp add: groupStep_def none mapSet_fresh)
qed

lemma groupStep_props:
  assumes refl: "\<And>a b. name a = name b \<Longrightarrow> sim a b"
    and good: "goodKeys groups"
  shows "goodKeys (groupStep sim groups code)
     \<and> mset (members (groupStep sim groups code)) = mset (members groups) + {#code#}
     \<and> length (groupStep sim groups code) \<le> Suc (length groups)"
proof (cases "pushFirstSimilar sim code groups")
  case None
  from groupStep_fresh [OF refl good None] good show ?thesis
    by (simp add: goodKeys_def members_def)
next
  case (Some groups')
  from pushFirstSimilar_Some [OF Some] good show ?thesis
    by (simp add: groupStep_def Some)
qed

lemma foldl_groupStep_props:
  assumes refl: "\<And>a b. name a = name b \<Longrightarrow> sim a b"
  shows "goodKeys groups \<Longrightarrow>
     goodKeys (foldl (groupStep sim) groups codes)
     \<and> mset (members (foldl (groupStep sim) groups codes)) = mset (members groups) + mset codes
     \<and> length (foldl (groupStep sim) groups codes) \<le> length groups + length codes"
proof (induction codes arbitrary: groups)
  case Nil
  then show ?case by simp
next
  case (Cons c cs)
  from groupStep_props [where code = c, OF refl Cons.prems]
  have g: "goodKeys (groupStep sim groups c)"
    and m: "mset (members (groupStep sim groups c)) = mset (members groups) + {#c#}"
    and l: "length (groupStep sim groups c) \<le> Suc (length groups)"
    by simp_all
  from Cons.IH [OF g] m l show ?case by simp
qed

lemma groupBy_props:
  assumes refl: "\<And>a b. name a = name b \<Longrightarrow> sim a b"
  shows "goodKeys (groupBy sim codes)"
    and "mset (members (groupBy sim codes)) = mset codes"
    and "length (groupBy sim codes) \<le> length codes"
  using foldl_groupStep_props [of sim "[]" codes, OF refl]
  by (simp_all add: groupBy_def goodKeys_def members_def)

lemma foldl_frequency: "foldl (\<lambda>sum c. sum + frequency c) a codes = a + sum_list (map frequency codes)"
  by (induction codes arbitrary: a) auto

lemma sum_list_frequency_mset:
  "mset xs = mset ys \<Longrightarrow> sum_list (map frequency xs) = sum_list (map frequency ys)"
  by (metis mset_map sum_mset_sum_list)

lemma frequency_mergedCode:
  "frequency (mergedCode first others) = sum_list (map frequency (first # others))"
proof -
  have "mset (sortByNameLength (first # others)) = mset (first # others)"
    by (simp add: sortByNameLength_def)
  then have "sum_list (map frequency (sortByNameLength (first # others)))
      = sum_list (map frequency (first # others))"
    by (rule sum_list_frequency_mset)
  then show ?thesis
    by (simp add: mergedCode_def Let_def foldl_frequency)
qed

lemma mergeGroups_props:
  "length (refined (mergeGroups groups acc)) = length (refined acc) + length groups
   \<and> sum_list (map frequency (refined (mergeGroups groups acc)))
       = sum_list (map frequency (refined acc)) + sum_list (map frequency (members groups))"
proof (induction groups acc rule: mergeGroups.induct)
  case (1 acc)
  then show ?case by (simp add: members_def)
next
  case (2 groupKey first others groups acc)
  show ?case
  proof (cases "length (first # others) > 1")
    case True
    with 2(1) [OF True] show ?thesis
      by (simp add: members_def frequency_mergedCode del: mergeGroups.simps(2))
         (simp add: True)
  next
    case False
    then have "others = []" by simp
    with 2(2) [OF False] show ?thesis
      by (simp add: members_def)
  qed
qed

text \<open>
  Claim C2. For every list of codes, \<open>refineCodebook\<close> returns at most as many codes as
  it was given, and the frequencies of the refined codes add up to the frequencies of the
  input codes: merging conserves the total frequency.
\<close>

theorem refineCodebook_length_frequency:
  "length (refined (refineCodebook codes)) \<le> length codes
   \<and> sum_list (map frequency (refined (refineCodebook codes))) = sum_list (map frequency codes)"
proof -
  have m: "mset (members (groupBy codesAreSimilar codes)) = mset codes"
    and l: "length (groupBy codesAreSimilar codes) \<le> length codes"
    using groupBy_props [of codesAreSimilar codes] codesAreSimilar_same_name by blast+
  from mergeGroups_props [of "groupBy codesAreSimilar codes" "\<lparr> refined = [], merges = [] \<rparr>"]
    sum_list_frequency_mset [OF m] l
  show ?thesis by (simp add: refineCodebook_def)
qed

lemma pushFirstSimilar_dissimilar:
  "list_all (\<lambda>(k, f, os). \<not> sim code f) groups \<Longrightarrow> pushFirstSimilar sim code groups = None"
  by (induction groups) auto

lemma groupBy_snoc: "groupBy sim (cs @ [d]) = groupStep sim (groupBy sim cs) d"
  by (simp add: groupBy_def)

lemma noLaterSimilar_snoc:
  "noLaterSimilar (cs @ [d]) = (noLaterSimilar cs \<and> list_all (\<lambda>c. \<not> codesAreSimilar d c) cs)"
  by (induction cs) auto

lemma groupBy_noLaterSimilar:
  "noLaterSimilar cs \<Longrightarrow> groupBy codesAreSimilar cs = map (\<lambda>c. (name c, c, [])) cs"
proof (induction cs rule: rev_induct)
  case Nil
  then show ?case by (simp add: groupBy_def)
next
  case (snoc d cs)
  from snoc.prems have nls: "noLaterSimilar cs"
    and dis: "list_all (\<lambda>c. \<not> codesAreSimilar d c) cs"
    by (simp_all add: noLaterSimilar_snoc)
  from snoc.IH [OF nls] have g: "groupBy codesAreSimilar cs = map (\<lambda>c. (name c, c, [])) cs" .
  from dis have none: "pushFirstSimilar codesAreSimilar d (groupBy codesAreSimilar cs) = None"
    by (intro pushFirstSimilar_dissimilar) (simp add: g list_all_iff)
  have good: "goodKeys (groupBy codesAreSimilar cs)"
    by (simp add: g goodKeys_def list_all_iff)
  from groupStep_fresh [of codesAreSimilar, OF codesAreSimilar_same_name good none]
  show ?case by (simp add: groupBy_snoc g)
qed

lemma mergeGroups_singletons:
  "mergeGroups (map (\<lambda>c. (name c, c, [])) cs) acc = acc\<lparr> refined := refined acc @ cs \<rparr>"
  by (induction cs arbitrary: acc) auto

lemma refineCodebook_noLaterSimilar:
  "noLaterSimilar cs \<Longrightarrow> refineCodebook cs = \<lparr> refined = cs, merges = [] \<rparr>"
  by (simp add: refineCodebook_def groupBy_noLaterSimilar mergeGroups_singletons)

lemma pushFirstSimilar_openers:
  "pushFirstSimilar sim code groups = Some groups' \<Longrightarrow>
     map (\<lambda>(k, f, os). f) groups' = map (\<lambda>(k, f, os). f) groups"
  by (induction groups arbitrary: groups') (auto split: if_splits option.splits)

lemma pushFirstSimilar_None_all:
  "pushFirstSimilar sim code groups = None \<Longrightarrow>
     list_all (\<lambda>f. \<not> sim code f) (map (\<lambda>(k, f, os). f) groups)"
  by (induction groups) (auto split: if_splits option.splits)

lemma groupStep_openers:
  assumes good: "goodKeys groups"
    and nls: "noLaterSimilar (map (\<lambda>(k, f, os). f) groups)"
  shows "noLaterSimilar (map (\<lambda>(k, f, os). f) (groupStep codesAreSimilar groups code))"
proof (cases "pushFirstSimilar codesAreSimilar code groups")
  case None
  from groupStep_fresh [of codesAreSimilar, OF codesAreSimilar_same_name good None]
  have "groupStep codesAreSimilar groups code = groups @ [(name code, code, [])]" .
  with nls pushFirstSimilar_None_all [OF None] show ?thesis
    by (simp add: noLaterSimilar_snoc)
next
  case (Some groups')
  with nls pushFirstSimilar_openers [OF Some] show ?thesis
    by (simp add: groupStep_def)
qed

lemma foldl_groupStep_openers:
  "goodKeys groups \<Longrightarrow> noLaterSimilar (map (\<lambda>(k, f, os). f) groups) \<Longrightarrow>
     noLaterSimilar (map (\<lambda>(k, f, os). f) (foldl (groupStep codesAreSimilar) groups codes))"
proof (induction codes arbitrary: groups)
  case Nil
  then show ?case by simp
next
  case (Cons c cs)
  from groupStep_props [where code = c, of codesAreSimilar, OF codesAreSimilar_same_name Cons.prems(1)]
  have g: "goodKeys (groupStep codesAreSimilar groups c)" by simp
  from groupStep_openers [OF Cons.prems, of c]
  have n: "noLaterSimilar (map (\<lambda>(k, f, os). f) (groupStep codesAreSimilar groups c))" .
  from Cons.IH [OF g n] show ?case by simp
qed

lemma groupBy_openers:
  "noLaterSimilar (map (\<lambda>(k, f, os). f) (groupBy codesAreSimilar codes))"
  using foldl_groupStep_openers [of "[]" codes]
  by (simp add: groupBy_def goodKeys_def)

lemma mergeGroups_refined:
  "refined (mergeGroups groups acc)
     = refined acc @ map (\<lambda>(k, f, os). if os = [] then f else mergedCode f os) groups"
  by (induction groups acc rule: mergeGroups.induct) auto

lemma insort_key_least:
  "list_all (\<lambda>y. key x \<le> key y) ys \<Longrightarrow> insort_key key x ys = x # ys"
  by (cases ys) auto

lemma hd_sort_key_first:
  assumes "list_all (\<lambda>y. key x \<le> key y) ys"
  shows "hd (sort_key key (x # ys)) = x"
proof -
  from assms have "list_all (\<lambda>y. key x \<le> key y) (sort_key key ys)"
    by (simp add: list_all_iff)
  then show ?thesis
    by (simp add: insort_key_least)
qed

lemma name_mergedCode:
  "list_all (\<lambda>c. length (name first) \<le> length (name c)) others \<Longrightarrow>
     name (mergedCode first others) = name first"
  by (simp add: mergedCode_def Let_def selectBestCodeName_def sortByNameLength_def
      hd_sort_key_first del: sort_key_simps)

lemma codesAreSimilar_names:
  "name a = name a' \<Longrightarrow> name b = name b' \<Longrightarrow> codesAreSimilar a b = codesAreSimilar a' b'"
  by (simp add: codesAreSimilar_def similarity_def)

lemma list_all_dissimilar_names:
  "map name xs = map name ys \<Longrightarrow> name x = name y \<Longrightarrow>
     list_all (\<lambda>d. \<not> codesAreSimilar d x) xs = list_all (\<lambda>d. \<not> codesAreSimilar d y) ys"
proof (induction xs arbitrary: ys)
  case Nil
  then show ?case by simp
next
  case (Cons a xs)
  then obtain b ys' where ys: "ys = b # ys'" by (cases ys) auto
  with Cons.prems have ab: "name a = name b" and rest: "map name xs = map name ys'"
    by simp_all
  from Cons.IH [OF rest Cons.prems(2)] codesAreSimilar_names [OF ab Cons.prems(2)]
  show ?case by (simp add: ys)
qed

lemma noLaterSimilar_names:
  "map name xs = map name ys \<Longrightarrow> noLaterSimilar xs = noLaterSimilar ys"
proof (induction xs arbitrary: ys)
  case Nil
  then show ?case by simp
next
  case (Cons a xs)
  then obtain b ys' where ys: "ys = b # ys'" by (cases ys) auto
  with Cons.prems have ab: "name a = name b" and rest: "map name xs = map name ys'"
    by simp_all
  from Cons.IH [OF rest] list_all_dissimilar_names [OF rest ab]
  show ?case by (simp add: ys)
qed

lemma refined_names:
  assumes "openersShortest codes"
  shows "map name (refined (refineCodebook codes))
           = map name (map (\<lambda>(k, f, os). f) (groupBy codesAreSimilar codes))"
proof -
  have "map name (map (\<lambda>(k, f, os). if os = [] then f else mergedCode f os) groups)
          = map name (map (\<lambda>(k, f, os). f) groups)"
    if "list_all (\<lambda>(k, first, others).
                 list_all (\<lambda>c. length (name first) \<le> length (name c)) others) groups"
    for groups
    using that by (induction groups) (auto simp: name_mergedCode)
  with assms show ?thesis
    by (simp add: refineCodebook_def mergeGroups_refined openersShortest_def)
qed

lemma pushFirstSimilar_shortest:
  "pushFirstSimilar sim code groups = Some groups' \<Longrightarrow>
   list_all (\<lambda>(k, f, os). length (name f) \<le> n
               \<and> list_all (\<lambda>c. length (name f) \<le> length (name c)) os) groups \<Longrightarrow>
   n \<le> length (name code) \<Longrightarrow>
   list_all (\<lambda>(k, f, os). length (name f) \<le> n
               \<and> list_all (\<lambda>c. length (name f) \<le> length (name c)) os) groups'"
  by (induction groups arbitrary: groups') (auto split: if_splits option.splits)

lemma foldl_groupStep_shortest:
  "sorted (map (\<lambda>c. length (name c)) codes) \<Longrightarrow>
   goodKeys groups \<Longrightarrow>
   list_all (\<lambda>(k, f, os).
       list_all (\<lambda>c. length (name f) \<le> length (name c)) codes
       \<and> list_all (\<lambda>c. length (name f) \<le> length (name c)) os) groups \<Longrightarrow>
   list_all (\<lambda>(k, f, os). list_all (\<lambda>c. length (name f) \<le> length (name c)) os)
     (foldl (groupStep codesAreSimilar) groups codes)"
proof (induction codes arbitrary: groups)
  case Nil
  then show ?case by (auto simp: list_all_iff)
next
  case (Cons c cs)
  from Cons.prems(1) have sorted: "sorted (map (\<lambda>c. length (name c)) cs)"
    and least: "list_all (\<lambda>d. length (name c) \<le> length (name d)) cs"
    by (auto simp: list_all_iff)
  from groupStep_props [where code = c, of codesAreSimilar, OF codesAreSimilar_same_name Cons.prems(2)]
  have good: "goodKeys (groupStep codesAreSimilar groups c)" by simp
  have inv: "list_all (\<lambda>(k, f, os).
       list_all (\<lambda>c. length (name f) \<le> length (name c)) cs
       \<and> list_all (\<lambda>c. length (name f) \<le> length (name c)) os)
     (groupStep codesAreSimilar groups c)"
  proof (cases "pushFirstSimilar codesAreSimilar c groups")
    case None
    from groupStep_fresh [of codesAreSimilar, OF codesAreSimilar_same_name Cons.prems(2) None]
    have "groupStep codesAreSimilar groups c = groups @ [(name c, c, [])]" .
    with Cons.prems(3) least show ?thesis
      by (auto simp: list_all_iff)
  next
    case (Some groups')
    from Cons.prems(3)
    have "list_all (\<lambda>(k, f, os). length (name f) \<le> length (name c)
               \<and> list_all (\<lambda>c. length (name f) \<le> length (name c)) os) groups"
      by (auto simp: list_all_iff)
    from pushFirstSimilar_shortest [OF Some this]
    have "list_all (\<lambda>(k, f, os). length (name f) \<le> length (name c)
               \<and> list_all (\<lambda>c. length (name f) \<le> length (name c)) os) groups'"
      by simp
    with least show ?thesis
      by (fastforce simp: groupStep_def Some list_all_iff intro: order_trans)
  qed
  from Cons.IH [OF sorted good inv] show ?case by simp
qed

lemma openersShortest_sorted:
  "sorted (map (\<lambda>c. length (name c)) codes) \<Longrightarrow> openersShortest codes"
  using foldl_groupStep_shortest [of codes "[]"]
  by (simp add: openersShortest_def groupBy_def goodKeys_def)

text \<open>
  Claim C3, as amended. When, in the grouping of the first run, no member of a group has
  a strictly shorter name than the code that opened the group, every refined code keeps
  the name of the code that opened its group, and running \<open>refineCodebook\<close> on the
  refined list performs no merge and returns the list unchanged. The condition holds in
  particular for codes given in order of non-decreasing name length
  (\<open>openersShortest_sorted\<close>). Without that condition
  a merged code takes a shorter name than the code its group was compared by, and a
  second run can merge again.
\<close>

theorem refineCodebook_idempotent_openers_shortest:
  assumes "openersShortest codes"
  shows "refineCodebook (refined (refineCodebook codes))
           = \<lparr> refined = refined (refineCodebook codes), merges = [] \<rparr>"
proof -
  from noLaterSimilar_names [OF refined_names [OF assms]] groupBy_openers [of codes]
  have "noLaterSimilar (refined (refineCodebook codes))" by simp
  then show ?thesis by (rule refineCodebook_noLaterSimilar)
qed

theorem refineCodebook_idempotent_witness:
  "openersShortest
     [\<lparr> name = ''stress-coping'', defn = ''coping with stress'', examples = [''text1''],
         frequency = 3, ctype = constructed \<rparr>,
      \<lparr> name = ''coping-stress'', defn = ''managing stress'', examples = [''text2''],
         frequency = 2, ctype = constructed \<rparr>]
   \<and> merges (refineCodebook
     [\<lparr> name = ''stress-coping'', defn = ''coping with stress'', examples = [''text1''],
         frequency = 3, ctype = constructed \<rparr>,
      \<lparr> name = ''coping-stress'', defn = ''managing stress'', examples = [''text2''],
         frequency = 2, ctype = constructed \<rparr>])
     = [\<lparr> mergeFrom = [''stress-coping'', ''coping-stress''], mergeTo = ''stress-coping'',
          reason = ''Similar semantic meaning'' \<rparr>]
   \<and> refineCodebook (refined (refineCodebook
     [\<lparr> name = ''stress-coping'', defn = ''coping with stress'', examples = [''text1''],
         frequency = 3, ctype = constructed \<rparr>,
      \<lparr> name = ''coping-stress'', defn = ''managing stress'', examples = [''text2''],
         frequency = 2, ctype = constructed \<rparr>]))
     = \<lparr> refined = refined (refineCodebook
         [\<lparr> name = ''stress-coping'', defn = ''coping with stress'', examples = [''text1''],
             frequency = 3, ctype = constructed \<rparr>,
          \<lparr> name = ''coping-stress'', defn = ''managing stress'', examples = [''text2''],
             frequency = 2, ctype = constructed \<rparr>]),
         merges = [] \<rparr>"
proof -
  let ?codes = "[\<lparr> name = ''stress-coping'', defn = ''coping with stress'', examples = [''text1''],
         frequency = 3, ctype = constructed \<rparr>,
      \<lparr> name = ''coping-stress'', defn = ''managing stress'', examples = [''text2''],
         frequency = 2, ctype = constructed \<rparr>]"
  have h: "openersShortest ?codes"
    by code_simp
  have m: "merges (refineCodebook ?codes)
     = [\<lparr> mergeFrom = [''stress-coping'', ''coping-stress''], mergeTo = ''stress-coping'',
          reason = ''Similar semantic meaning'' \<rparr>]"
    by code_simp
  from h m refineCodebook_idempotent_openers_shortest [OF h] show ?thesis
    by (intro conjI)
qed

text \<open>
  The claim as stated fails on the codes \<open>a-b-c-d\<close>, \<open>a-b-c\<close>, \<open>a-b-x\<close>: the first
  run merges the first two under the name \<open>a-b-c\<close> and keeps \<open>a-b-x\<close> apart; the
  second run merges \<open>a-b-x\<close> into \<open>a-b-c\<close>.
\<close>

theorem refineCodebook_not_idempotent:
  "merges (refineCodebook (refined (refineCodebook
     [\<lparr> name = ''a-b-c-d'', defn = ''first'', examples = [], frequency = 1,
         ctype = constructed \<rparr>,
      \<lparr> name = ''a-b-c'', defn = ''second'', examples = [], frequency = 1,
         ctype = constructed \<rparr>,
      \<lparr> name = ''a-b-x'', defn = ''third'', examples = [], frequency = 1,
         ctype = constructed \<rparr>])))
   = [\<lparr> mergeFrom = [''a-b-c'', ''a-b-x''], mergeTo = ''a-b-c'',
        reason = ''Similar semantic meaning'' \<rparr>]"
  by code_simp

lemma quoteLoop_eq:
  "quoteLoop text quotes codes
     = codes @ map (quoteCode text)
         (filter (\<lambda>cleaned. 10 < length cleaned \<and> length cleaned < 50) (map cleanQuote quotes))"
  by (induction quotes arbitrary: codes) auto

lemma matchQuotes_skip: "dquote \<notin> set pre \<Longrightarrow> matchQuotes (pre @ s) = matchQuotes s"
  by (induction pre) auto

lemma matchQuotes_quoted:
  assumes "q \<noteq> []" and "dquote \<notin> set q"
  shows "matchQuotes (dquote # q @ dquote # post) = (dquote # q @ [dquote]) # matchQuotes post"
proof -
  have t: "takeWhile (\<lambda>d. d \<noteq> dquote) (q @ dquote # post) = q"
    using assms(2) by (induction q) auto
  have d: "dropWhile (\<lambda>d. d \<noteq> dquote) (q @ dquote # post) = dquote # post"
    using assms(2) by (induction q) auto
  show ?thesis
    using assms(1) by (simp add: t d)
qed

text \<open>
  Claim C9, as amended. The codes of \<open>extractInVivoCodes\<close> are, in order, one in-vivo
  code for every quoted substring whose content, once trimmed, has more than 10 and
  fewer than 50 characters (11 to 49), followed by the codes of the emotion phrases; a
  quoted substring whose trimmed content has 10 characters or fewer, or 50 or more,
  produces no code. Every code returned has type \<open>in_vivo\<close>.
\<close>

theorem extractInVivoCodes_quotes:
  "extractInVivoCodes text
     = map (quoteCode text)
         (filter (\<lambda>cleaned. 10 < length cleaned \<and> length cleaned < 50)
            (map cleanQuote (matchQuotes text)))
       @ map (emotionCode text) (emotionMatches 0 0 text)
   \<and> list_all (\<lambda>c. ctype c = in_vivo) (extractInVivoCodes text)"
proof
  show "extractInVivoCodes text
     = map (quoteCode text)
         (filter (\<lambda>cleaned. 10 < length cleaned \<and> length cleaned < 50)
            (map cleanQuote (matchQuotes text)))
       @ map (emotionCode text) (emotionMatches 0 0 text)"
    by (simp add: extractInVivoCodes_def quoteLoop_eq)
  then show "list_all (\<lambda>c. ctype c = in_vivo) (extractInVivoCodes text)"
    by (auto simp: list_all_iff quoteCode_def emotionCode_def Let_def)
qed

text \<open>
  The claim as stated includes the length 10: a quoted substring of exactly 10 characters
  is matched and produces no code.
\<close>

theorem quote_of_length_10:
  "length ''abcdefghij'' = 10
   \<and> matchQuotes ([dquote] @ ''abcdefghij'' @ [dquote]) = [dquote # ''abcdefghij'' @ [dquote]]
   \<and> extractInVivoCodes ([dquote] @ ''abcdefghij'' @ [dquote]) = []"
  by code_simp

section \<open>Properties of the theme engine\<close>

lemma codesAreSimilar_theme_same_name: "name a = name b \<Longrightarrow> codesAreSimilar_theme a b"
  by (simp add: codesAreSimilar_theme_def similarity_same_name)

lemma calculatePrevalence_eq:
  "calculatePrevalence themeCodes allCodes
     = (if 0 < sum_list (map frequency allCodes)
        then of_int (sum_list (map frequency themeCodes)) / of_int (sum_list (map frequency allCodes))
        else 0)"
  by (simp add: calculatePrevalence_def Let_def foldl_frequency)

lemma sum_list_frequency_submset:
  assumes sub: "mset xs \<subseteq># mset ys"
    and nonneg: "list_all (\<lambda>c. 0 \<le> frequency c) ys"
  shows "sum_list (map frequency xs) \<le> sum_list (map frequency ys)"
proof -
  from sub obtain zs where "mset ys = mset xs + zs"
    by (auto simp: mset_subset_eq_exists_conv)
  moreover obtain rest where "mset rest = zs"
    using ex_mset by blast
  ultimately have ys: "mset ys = mset (xs @ rest)" by simp
  then have eq: "sum_list (map frequency ys)
      = sum_list (map frequency xs) + sum_list (map frequency rest)"
    using sum_list_frequency_mset [OF ys] by simp
  have "set rest \<subseteq> set ys"
    using ys by (metis mset_eq_setD set_append sup_ge2)
  with nonneg have "\<And>z. z \<in> set rest \<Longrightarrow> 0 \<le> frequency z"
    by (auto simp: list_all_iff)
  then have "0 \<le> sum_list (map frequency rest)"
    by (intro sum_list_nonneg) auto
  with eq show ?thesis by simp
qed

lemma list_all_submset:
  "mset xs \<subseteq># mset ys \<Longrightarrow> list_all P ys \<Longrightarrow> list_all P xs"
  by (metis list_all_iff set_mset_mono set_mset_mset subsetD)

lemma sum_list_frequency_pos:
  "list_all (\<lambda>c. 1 \<le> frequency c) xs \<Longrightarrow> xs \<noteq> [] \<Longrightarrow> 0 < sum_list (map frequency xs)"
proof (induction xs)
  case Nil
  then show ?case by simp
next
  case (Cons x xs)
  then show ?case
    by (cases xs) (auto intro: add_pos_pos)
qed

lemma prevalence_of_part:
  assumes freq: "list_all (\<lambda>c. 1 \<le> frequency c) allCodes"
    and sub: "mset part \<subseteq># mset allCodes"
    and ne: "part \<noteq> []"
  shows "calculatePrevalence part allCodes
           = of_int (sum_list (map frequency part)) / of_int (sum_list (map frequency allCodes))
         \<and> 0 \<le> calculatePrevalence part allCodes \<and> calculatePrevalence part allCodes \<le> 1"
proof -
  from freq have nonneg: "list_all (\<lambda>c. 0 \<le> frequency c) allCodes"
    by (auto simp: list_all_iff)
  have le: "sum_list (map frequency part) \<le> sum_list (map frequency allCodes)"
    using sub nonneg by (rule sum_list_frequency_submset)
  have pos: "0 < sum_list (map frequency part)"
    using list_all_submset [OF sub freq] ne by (rule sum_list_frequency_pos)
  with le have tot: "0 < sum_list (map frequency allCodes)" by simp
  from pos le tot show ?thesis
    by (simp add: calculatePrevalence_eq)
qed

lemma group_submset:
  "(k, f, os) \<in> set groups \<Longrightarrow> mset (f # os) \<subseteq># mset (members groups)"
proof (induction groups)
  case Nil
  then show ?case by simp
next
  case (Cons g groups)
  show ?case
  proof (cases "g = (k, f, os)")
    case True
    then show ?thesis by (simp add: members_def)
  next
    case False
    with Cons.prems have "(k, f, os) \<in> set groups" by simp
    from Cons.IH [OF this] have "mset (f # os) \<subseteq># mset (members groups)" .
    also have "mset (members groups) \<subseteq># mset (members (g # groups))"
      by (cases g) (simp add: members_def)
    finally show ?thesis .
  qed
qed

lemma group_of_codes:
  assumes "(k, f, os) \<in> set (groupCodesBySimilarity codes)"
  shows "mset (f # os) \<subseteq># mset codes"
  using group_submset [OF assms [unfolded groupCodesBySimilarity_def]]
    groupBy_props(2) [of codesAreSimilar_theme codes] codesAreSimilar_theme_same_name
  by simp

lemma themeLoop_elem:
  "t \<in> set (themeLoop codes depth groups) \<Longrightarrow>
     \<exists>k f os. (k, f, os) \<in> set groups
       \<and> supportingCodes t = map name (f # os)
       \<and> prevalence t = calculatePrevalence (f # os) codes
       \<and> (subThemes t = None \<or> subThemes t = Some (identifySubThemes (f # os)))"
proof (induction groups)
  case Nil
  then show ?case by simp
next
  case (Cons g groups)
  obtain k f os where g: "g = (k, f, os)" by (cases g) auto
  from Cons.prems consider
      (here) "t = Theme (generateThemeName (f # os)) (generateThemeDescription (f # os))
                (map name (f # os)) (calculatePrevalence (f # os) codes)
                (take 3 (concat (map examples (f # os))))
                (if depth = deep \<and> length (f # os) > 5
                 then Some (identifySubThemes (f # os)) else None)"
    | (later) "t \<in> set (themeLoop codes depth groups)"
    by (auto simp: g Let_def split: if_splits)
  then show ?case
  proof cases
    case here
    then have "supportingCodes t = map name (f # os)
       \<and> prevalence t = calculatePrevalence (f # os) codes
       \<and> (subThemes t = None \<or> subThemes t = Some (identifySubThemes (f # os)))"
      by simp
    then show ?thesis unfolding g by (intro exI [of _ k] exI [of _ f] exI [of _ os]) simp
  next
    case later
    from Cons.IH [OF later] show ?thesis by auto
  qed
qed

lemma subThemeLoop_elem:
  "s \<in> set (subThemeLoop codes groups) \<Longrightarrow>
     \<exists>k f os. (k, f, os) \<in> set groups
       \<and> supportingCodes s = map name (f # os)
       \<and> prevalence s = calculatePrevalence (f # os) codes
       \<and> subThemes s = None"
proof (induction groups)
  case Nil
  then show ?case by simp
next
  case (Cons g groups)
  obtain k f os where g: "g = (k, f, os)" by (cases g) auto
  from Cons.prems consider
      (here) "supportingCodes s = map name (f # os)
       \<and> prevalence s = calculatePrevalence (f # os) codes \<and> subThemes s = None"
    | (later) "s \<in> set (subThemeLoop codes groups)"
    by (auto simp: g Let_def split: if_splits)
  then show ?case
  proof cases
    case here
    then show ?thesis unfolding g by (intro exI [of _ k] exI [of _ f] exI [of _ os]) simp
  next
    case later
    from Cons.IH [OF later] show ?thesis by auto
  qed
qed

lemma frameworkLoop_elem:
  "t \<in> set (frameworkLoop codes frameworks) \<Longrightarrow>
     \<exists>kws. filter (matchesFramework kws) codes \<noteq> []
       \<and> supportingCodes t = map name (filter (matchesFramework kws) codes)
       \<and> prevalence t = calculatePrevalence (filter (matchesFramework kws) codes) codes
       \<and> subThemes t = None"
proof (induction frameworks)
  case Nil
  then show ?case by simp
next
  case (Cons fw frameworks)
  obtain nm kws where fw: "fw = (nm, kws)" by (cases fw) auto
  from Cons.prems consider
      (here) "filter (matchesFramework kws) codes \<noteq> []
       \<and> supportingCodes t = map name (filter (matchesFramework kws) codes)
       \<and> prevalence t = calculatePrevalence (filter (matchesFramework kws) codes) codes
       \<and> subThemes t = None"
    | (later) "t \<in> set (frameworkLoop codes frameworks)"
    by (auto simp: fw Let_def split: if_splits)
  then show ?case
  proof cases
    case here
    then show ?thesis by blast
  next
    case later
    from Cons.IH [OF later] show ?thesis .
  qed
qed

lemma set_sortByPrevalence: "set (sortByPrevalence themes) = set themes"
  by (simp add: sortByPrevalence_def)

lemma identifySubThemes_elem:
  assumes freq: "list_all (\<lambda>c. 1 \<le> frequency c) parent"
    and s: "s \<in> set (identifySubThemes parent)"
  shows "\<exists>sub. mset sub \<subseteq># mset parent \<and> supportingCodes s = map name sub
           \<and> prevalence s = of_int (sum_list (map frequency sub))
                              / of_int (sum_list (map frequency parent))
           \<and> 0 \<le> prevalence s \<and> prevalence s \<le> 1 \<and> subThemes s = None"
proof -
  from subThemeLoop_elem [OF s [unfolded identifySubThemes_def]]
  obtain k f os where g: "(k, f, os) \<in> set (groupCodesBySimilarity parent)"
    and sc: "supportingCodes s = map name (f # os)"
    and pv: "prevalence s = calculatePrevalence (f # os) parent"
    and st: "subThemes s = None"
    by blast
  have sub: "mset (f # os) \<subseteq># mset parent" using g by (rule group_of_codes)
  from prevalence_of_part [OF freq sub] sc pv st sub show ?thesis
    by (intro exI [of _ "f # os"]) simp
qed

text \<open>
  Claim C4, as amended. When every input code has frequency at least 1, every theme
  returned by \<open>extractThemes\<close>, in either mode, is supported by a part of the input
  codes, and its prevalence is the frequency sum of that part divided by the frequency
  sum of all input codes, a number from 0 to 1. A sub-theme is supported by a part of its
  parent theme's codes, and its prevalence is the frequency sum of that part divided by
  the frequency sum of the parent theme's codes (not of all input codes), again from 0
  to 1; sub-themes have no sub-themes.
\<close>

theorem extractThemes_prevalence:
  assumes freq: "list_all (\<lambda>c. 1 \<le> frequency c) codes"
    and t: "t \<in> set (extractThemes codes mode depth)"
  shows "\<exists>supporting. mset supporting \<subseteq># mset codes
           \<and> supportingCodes t = map name supporting
           \<and> prevalence t = of_int (sum_list (map frequency supporting))
                              / of_int (sum_list (map frequency codes))
           \<and> 0 \<le> prevalence t \<and> prevalence t \<le> 1
           \<and> list_all (\<lambda>s. \<exists>sub. mset sub \<subseteq># mset supporting
                   \<and> supportingCodes s = map name sub
                   \<and> prevalence s = of_int (sum_list (map frequency sub))
                                      / of_int (sum_list (map frequency supporting))
                   \<and> 0 \<le> prevalence s \<and> prevalence s \<le> 1 \<and> subThemes s = None)
               (case subThemes t of None \<Rightarrow> [] | Some subs \<Rightarrow> subs)"
proof (cases "mode = inductiveMode")
  case True
  with t have "t \<in> set (themeLoop codes depth (groupCodesBySimilarity codes))"
    by (simp add: extractThemes_def inductiveThemeExtraction_def set_sortByPrevalence)
  from themeLoop_elem [OF this]
  obtain k f os where g: "(k, f, os) \<in> set (groupCodesBySimilarity codes)"
    and sc: "supportingCodes t = map name (f # os)"
    and pv: "prevalence t = calculatePrevalence (f # os) codes"
    and st: "subThemes t = None \<or> subThemes t = Some (identifySubThemes (f # os))"
    by blast
  have sub: "mset (f # os) \<subseteq># mset codes" using g by (rule group_of_codes)
  have freq': "list_all (\<lambda>c. 1 \<le> frequency c) (f # os)"
    using sub freq by (rule list_all_submset)
  have subs: "list_all (\<lambda>s. \<exists>sub. mset sub \<subseteq># mset (f # os)
                   \<and> supportingCodes s = map name sub
                   \<and> prevalence s = of_int (sum_list (map frequency sub))
                                      / of_int (sum_list (map frequency (f # os)))
                   \<and> 0 \<le> prevalence s \<and> prevalence s \<le> 1 \<and> subThemes s = None)
               (case subThemes t of None \<Rightarrow> [] | Some subs \<Rightarrow> subs)"
    using st identifySubThemes_elem [OF freq']
    by (auto simp: list_all_iff)
  from prevalence_of_part [OF freq sub] sc pv sub subs show ?thesis
    by (intro exI [of _ "f # os"]) simp
next
  case False
  with t have "t \<in> set (frameworkLoop codes theoreticalFrameworks)"
    by (simp add: extractThemes_def deductiveThemeExtraction_def set_sortByPrevalence)
  from frameworkLoop_elem [OF this]
  obtain kws where ne: "filter (matchesFramework kws) codes \<noteq> []"
    and sc: "supportingCodes t = map name (filter (matchesFramework kws) codes)"
    and pv: "prevalence t = calculatePrevalence (filter (matchesFramework kws) codes) codes"
    and st: "subThemes t = None"
    by blast
  have sub: "mset (filter (matchesFramework kws) codes) \<subseteq># mset codes"
    by simp
  from prevalence_of_part [OF freq sub ne] sc pv st sub show ?thesis
    by (intro exI [of _ "filter (matchesFramework kws) codes"]) simp
qed

theorem extractThemes_prevalence_witness:
  "list_all (\<lambda>c. 1 \<le> frequency c) stressCodes
   \<and> hd (extractThemes stressCodes inductiveMode deep)
       \<in> set (extractThemes stressCodes inductiveMode deep)
   \<and> 0 \<le> prevalence (hd (extractThemes stressCodes inductiveMode deep))
   \<and> prevalence (hd (extractThemes stressCodes inductiveMode deep)) \<le> 1"
proof -
  have h1: "list_all (\<lambda>c. 1 \<le> frequency c) stressCodes"
    by code_simp
  have h2: "hd (extractThemes stressCodes inductiveMode deep)
       \<in> set (extractThemes stressCodes inductiveMode deep)"
    by code_simp
  from extractThemes_prevalence [OF h1 h2] h1 h2 show ?thesis
    by blast
qed

text \<open>
  The claim as stated fails for sub-themes. Six codes \<open>stress-a\<close> to \<open>stress-f\<close> and a
  seventh code \<open>zzz\<close>, each of frequency 1, in deep inductive mode: the theme has
  prevalence 6/7, and its sub-theme, with the same six supporting codes, has prevalence 1.
\<close>

theorem subTheme_prevalence_counterexample:
  "list_all (\<lambda>c. 1 \<le> frequency c) stressCodes
   \<and> extractThemes stressCodes inductiveMode deep
     = [Theme ''Stress'' (generateThemeDescription (take 6 stressCodes))
          [''stress-a'', ''stress-b'', ''stress-c'', ''stress-d'', ''stress-e'', ''stress-f'']
          (6 / 7) []
          (Some [Theme ''Stress'' (generateThemeDescription (take 6 stressCodes))
                   [''stress-a'', ''stress-b'', ''stress-c'', ''stress-d'', ''stress-e'', ''stress-f'']
                   1 [] None])]
   \<and> map name (take 6 stressCodes)
     = [''stress-a'', ''stress-b'', ''stress-c'', ''stress-d'', ''stress-e'', ''stress-f'']
   \<and> rat_of_int (sum_list (map frequency (take 6 stressCodes)))
       / rat_of_int (sum_list (map frequency stressCodes)) = 6 / 7"
  by code_simp

lemma sourceLoop_length:
  "length (sourceLoop m sources seen acc) = length acc + length sources"
  by (induction sources arbitrary: seen acc) (auto simp: Let_def)

lemma average_nonneg: "xs \<noteq> [] \<Longrightarrow> \<exists>q. average xs = Num q \<and> 0 \<le> q"
  by (simp add: average_def)

lemma detectSaturation_nonempty:
  assumes "codesBySource \<noteq> []"
  shows "inUnitInterval (saturationRate (detectSaturation lvl codesBySource))"
proof -
  let ?counts = "sourceLoop codesBySource (map fst codesBySource) {} []"
  have "length ?counts = length codesBySource"
    by (simp add: sourceLoop_length)
  with assms have "drop (length ?counts - 3) ?counts \<noteq> []"
    by (cases codesBySource) auto
  from average_nonneg [OF this] obtain q
    where q: "average (drop (length ?counts - 3) ?counts) = Num q" and nonneg: "0 \<le> q"
    by blast
  have "saturationRate (detectSaturation lvl codesBySource) = Num (1 - min (q / 5) 1)"
    by (simp add: detectSaturation_def Let_def q rateOf_def)
  with nonneg show ?thesis
    by (simp add: inUnitInterval_def min_def)
qed

text \<open>
  Claim C5. The claim holds for every map with at least one source and fails for the
  empty map: with no source the average of the last three counts is \<open>0 / 0\<close>, and the
  saturation rate is \<open>NaN\<close>, which is not a number from 0 to 1.
\<close>

theorem detectSaturation_empty:
  "saturationRate (detectSaturation lvl []) = NaN
   \<and> \<not> inUnitInterval (saturationRate (detectSaturation lvl []))
   \<and> newCodesPerSource (detectSaturation lvl []) = []"
  by (simp add: detectSaturation_def average_def rateOf_def inUnitInterval_def Let_def)

text \<open>
  Claim C6. Three sources whose codes are named, in order, \<open>{c1, c2}\<close>, \<open>{c1}\<close>,
  \<open>{c1}\<close> are saturated with a saturation rate above 0.8 (it is 13/15); three sources
  with one code each, of three different names, are not saturated (the rate is 4/5).
\<close>

theorem detectSaturation_examples:
  assumes keys: "distinct [s1, s2, s3]"
    and same: "name c = name a" "name d = name a"
    and disjoint: "distinct [name e1, name e2, name e3]"
  shows "saturated (detectSaturation lvl [(s1, [a, b]), (s2, [c]), (s3, [d])])
       \<and> jsGreater (saturationRate (detectSaturation lvl [(s1, [a, b]), (s2, [c]), (s3, [d])])) (8 / 10)
       \<and> \<not> saturated (detectSaturation lvl [(s1, [e1]), (s2, [e2]), (s3, [e3])])"
proof -
  from keys have k: "s2 \<noteq> s1" "s3 \<noteq> s1" "s3 \<noteq> s2"
    by auto
  from disjoint have e: "name e2 \<noteq> name e1" "name e3 \<noteq> name e1" "name e3 \<noteq> name e2"
    by auto
  have n1: "sourceLoop [(s1, [a, b]), (s2, [c]), (s3, [d])] [s1, s2, s3] {} [] = [2, 0, 0]"
    by (simp add: k same Let_def)
  have n2: "sourceLoop [(s1, [e1]), (s2, [e2]), (s3, [e3])] [s1, s2, s3] {} [] = [1, 1, 1]"
    using e by (auto simp: k Let_def)
  have r1: "detectSaturation lvl [(s1, [a, b]), (s2, [c]), (s3, [d])]
      = \<lparr> level = lvl, saturated = True, saturationRate = Num (13 / 15),
          newCodesPerSource = [2, 0, 0],
          recommendation = ''Saturation achieved at '' @ levelString lvl
                     @ '' level. You likely have enough data.'' \<rparr>"
    unfolding detectSaturation_def Let_def list.map fst_conv n1
    by (simp add: average_def rateOf_def jsGreater_def)
  have r2: "detectSaturation lvl [(s1, [e1]), (s2, [e2]), (s3, [e3])]
      = \<lparr> level = lvl, saturated = False, saturationRate = Num (4 / 5),
          newCodesPerSource = [1, 1, 1],
          recommendation = ''Approaching saturation. 2-3 more data sources recommended.'' \<rparr>"
    unfolding detectSaturation_def Let_def list.map fst_conv n2
    by (simp add: average_def rateOf_def jsGreater_def)
  show ?thesis
    unfolding r1 r2 by (simp add: jsGreater_def)
qed

theorem detectSaturation_examples_witness:
  "distinct [''source1'', ''source2'', ''source3'']
   \<and> name (codeNamed ''code1'') = name (codeNamed ''code1'')
   \<and> distinct [name (codeNamed ''code1''), name (codeNamed ''code2''), name (codeNamed ''code3'')]
   \<and> saturated (detectSaturation codeLevel
         [(''source1'', [codeNamed ''code1'', codeNamed ''code2'']),
          (''source2'', [codeNamed ''code1'']),
          (''source3'', [codeNamed ''code1''])])
   \<and> jsGreater (saturationRate (detectSaturation codeLevel
         [(''source1'', [codeNamed ''code1'', codeNamed ''code2'']),
          (''source2'', [codeNamed ''code1'']),
          (''source3'', [codeNamed ''code1''])])) (8 / 10)
   \<and> \<not> saturated (detectSaturation codeLevel
         [(''source1'', [codeNamed ''code1'']),
          (''source2'', [codeNamed ''code2'']),
          (''source3'', [codeNamed ''code3''])])"
proof -
  have k: "distinct [''source1'', ''source2'', ''source3'']"
    by simp
  have s: "name (codeNamed ''code1'') = name (codeNamed ''code1'')"
    by simp
  have d: "distinct [name (codeNamed ''code1''), name (codeNamed ''code2''),
      name (codeNamed ''code3'')]"
    by (simp add: codeNamed_def)
  from detectSaturation_examples [OF k s s d, of codeLevel "codeNamed ''code2''"] k s d
  show ?thesis by blast
qed

lemma length_filter_mono:
  "(\<And>x. P x \<Longrightarrow> Q x) \<Longrightarrow> length (filter P xs) \<le> length (filter Q xs)"
  by (induction xs) auto

text \<open>
  Claim C8. On the same theme and codes, the number of negative cases returned does not
  grow as the threshold tightens: the count for \<open>strong\<close> is at most the count for
  \<open>moderate\<close>, which is at most the count for \<open>weak\<close>. The threshold \<open>weak\<close> keeps
  every detected case, \<open>moderate\<close> drops the cases of strength \<open>weak\<close>, and
  \<open>strong\<close> keeps only the cases of strength \<open>strong\<close>.
\<close>

theorem findNegativeCases_monotone:
  "length (negativeCases (findNegativeCases theme allCodes strong))
     \<le> length (negativeCases (findNegativeCases theme allCodes moderate))
   \<and> length (negativeCases (findNegativeCases theme allCodes moderate))
     \<le> length (negativeCases (findNegativeCases theme allCodes weak))
   \<and> negativeCases (findNegativeCases theme allCodes weak) = negativeCaseLoop theme allCodes
   \<and> negativeCases (findNegativeCases theme allCodes moderate)
       = filter (\<lambda>nc. strength nc \<noteq> weak) (negativeCaseLoop theme allCodes)
   \<and> negativeCases (findNegativeCases theme allCodes strong)
       = filter (\<lambda>nc. strength nc = strong) (negativeCaseLoop theme allCodes)"
proof -
  have pw: "passesThreshold weak = (\<lambda>nc. True)"
    and pm: "passesThreshold moderate = (\<lambda>nc. strength nc \<noteq> weak)"
    and ps: "passesThreshold strong = (\<lambda>nc. strength nc = strong)"
    by (simp_all add: passesThreshold_def fun_eq_iff)
  have w: "negativeCases (findNegativeCases theme allCodes weak) = negativeCaseLoop theme allCodes"
    by (simp add: findNegativeCases_def pw Let_def)
  have m: "negativeCases (findNegativeCases theme allCodes moderate)
       = filter (\<lambda>nc. strength nc \<noteq> weak) (negativeCaseLoop theme allCodes)"
    by (simp add: findNegativeCases_def pm Let_def)
  have s: "negativeCases (findNegativeCases theme allCodes strong)
       = filter (\<lambda>nc. strength nc = strong) (negativeCaseLoop theme allCodes)"
    by (simp add: findNegativeCases_def ps Let_def)
  have "length (filter (\<lambda>nc. strength nc = strong) (negativeCaseLoop theme allCodes))
      \<le> length (filter (\<lambda>nc. strength nc \<noteq> weak) (negativeCaseLoop theme allCodes))"
    by (rule length_filter_mono) simp
  moreover have "length (filter (\<lambda>nc. strength nc \<noteq> weak) (negativeCaseLoop theme allCodes))
      \<le> length (negativeCaseLoop theme allCodes)"
    by simp
  ultimately show ?thesis by (simp add: w m s)
qed

text \<open>
  Claim C10. Deductive extraction lower-cases the definition of a code and not its name.
  The code named \<open>Challenge-Faced\<close> contains the keyword \<open>challenge\<close> up to letter
  case and is matched by no framework, while the same code with a lower-case name, or
  with the capitalised keyword in its definition, is matched by the first framework.
\<close>

theorem deductive_name_case_sensitive:
  "includesStr (toLowerCase ''Challenge-Faced'') ''challenge''
   \<and> extractThemes
       [\<lparr> name = ''Challenge-Faced'', defn = ''a hard time'', examples = [], frequency = 1,
           ctype = constructed \<rparr>] deductiveMode medium = []
   \<and> map tname (extractThemes
       [\<lparr> name = ''challenge-faced'', defn = ''a hard time'', examples = [], frequency = 1,
           ctype = constructed \<rparr>] deductiveMode medium) = [''Challenges and Barriers'']
   \<and> map tname (extractThemes
       [\<lparr> name = ''x'', defn = ''A Challenge'', examples = [], frequency = 1,
           ctype = constructed \<rparr>] deductiveMode medium) = [''Challenges and Barriers'']"
  by code_simp

section \<open>Properties of the theory engine\<close>

lemma mapSet_nonempty: "mapSet m k v \<noteq> []"
  by (cases m) (auto split: if_splits)

lemma set_mapSet: "set (mapSet m k v) \<subseteq> insert (k, v) (set m)"
  by (induction m) (auto split: if_splits)

lemma categoryLoop_relatedCodes:
  "list_all (\<lambda>c. relatedCodes c \<noteq> []) (categoryLoop paradigm groups)"
  by (induction groups) (auto split: if_splits)

lemma identifyCategories_relatedCodes:
  "list_all (\<lambda>c. relatedCodes c \<noteq> []) (identifyCategories codes paradigm)"
  by (simp add: identifyCategories_def categoryLoop_relatedCodes)

lemma categoryScore_ge: "of_nat (length (relatedCodes category)) \<le> categoryScore category axialResults"
  by (auto simp: categoryScore_def Let_def add.assoc split: option.splits
      intro!: add_nonneg_nonneg)

lemma foldl_scores:
  "set (foldl (\<lambda>scores category. mapSet scores (catName category) (categoryScore category ax))
          acc categories)
     \<subseteq> set acc \<union> (\<lambda>c. (catName c, categoryScore c ax)) ` set categories"
proof (induction categories arbitrary: acc)
  case Nil
  then show ?case by simp
next
  case (Cons c cs)
  have "set (foldl (\<lambda>scores category. mapSet scores (catName category) (categoryScore category ax))
          (mapSet acc (catName c) (categoryScore c ax)) cs)
     \<subseteq> set (mapSet acc (catName c) (categoryScore c ax))
         \<union> (\<lambda>c. (catName c, categoryScore c ax)) ` set cs"
    by (rule Cons.IH)
  with set_mapSet [of acc "catName c" "categoryScore c ax"] show ?case
    by auto
qed

lemma foldl_scores_nonempty:
  "acc \<noteq> [] \<or> categories \<noteq> [] \<Longrightarrow>
   foldl (\<lambda>scores category. mapSet scores (catName category) (categoryScore category ax))
     acc categories \<noteq> []"
  by (induction categories arbitrary: acc) (auto simp: mapSet_nonempty)

lemma categoryScores_elem:
  "(k, v) \<in> set (categoryScores categories ax) \<Longrightarrow>
     \<exists>c \<in> set categories. k = catName c \<and> v = categoryScore c ax"
  using foldl_scores [of ax "[]" categories]
  by (auto simp: categoryScores_def)

lemma categoryScores_empty: "(categoryScores categories ax = []) = (categories = [])"
  using foldl_scores_nonempty [of "[]" categories ax]
  by (auto simp: categoryScores_def)

lemma sortByScore_props:
  "set (sortByScore scores) = set scores" "(sortByScore scores = []) = (scores = [])"
proof -
  show "set (sortByScore scores) = set scores"
    by (simp add: sortByScore_def)
  have "length (sortByScore scores) = length scores"
    by (simp add: sortByScore_def)
  then show "(sortByScore scores = []) = (scores = [])"
    by (metis length_0_conv)
qed

lemma foldl_plus_rat: "foldl (+) (a::rat) xs = a + sum_list xs"
  by (induction xs arbitrary: a) auto

lemma member_le_sum_list:
  fixes xs :: "rat list"
  shows "list_all (\<lambda>x. 0 \<le> x) xs \<Longrightarrow> x \<in> set xs \<Longrightarrow> x \<le> sum_list xs"
proof (induction xs)
  case Nil
  then show ?case by simp
next
  case (Cons y ys)
  then have "0 \<le> sum_list ys"
    by (auto simp: list_all_iff intro: sum_list_nonneg)
  with Cons show ?case by auto
qed

lemma find_catName:
  "c \<in> set categories \<Longrightarrow> \<exists>c'. find (\<lambda>x. catName x = catName c) categories = Some c'"
  by (cases "find (\<lambda>x. catName x = catName c) categories") (auto simp: find_None_iff)

lemma identifyCoreCategory_empty:
  "identifyCoreCategory [] axialResults researchQuestion = Inl NoCategoriesFound"
  by (simp add: identifyCoreCategory_def categoryScores_def sortByScore_def)

lemma identifyCoreCategory_nonempty:
  assumes ne: "categories \<noteq> []"
    and codes: "list_all (\<lambda>c. relatedCodes c \<noteq> []) categories"
  shows "\<exists>core. identifyCoreCategory categories axialResults researchQuestion = Inr core
           \<and> coreName core \<in> set (map catName categories)
           \<and> 0 < centrality core \<and> centrality core \<le> 1"
proof -
  let ?scores = "categoryScores categories axialResults"
  from ne have "sortByScore ?scores \<noteq> []"
    by (simp add: sortByScore_props categoryScores_empty)
  then obtain nm coreScore rest where sorted: "sortByScore ?scores = (nm, coreScore) # rest"
    by (cases "sortByScore ?scores") auto
  then have "(nm, coreScore) \<in> set (sortByScore ?scores)" by simp
  then have inScores: "(nm, coreScore) \<in> set ?scores" by (simp add: sortByScore_props)
  from categoryScores_elem [OF this]
  obtain c where c: "c \<in> set categories" and nm: "nm = catName c"
    and sc: "coreScore = categoryScore c axialResults"
    by blast
  from find_catName [OF c] obtain category
    where found: "find (\<lambda>x. catName x = nm) categories = Some category"
    by (auto simp: nm)
  have pos_each: "0 < v" if "(k, v) \<in> set ?scores" for k v
  proof -
    from categoryScores_elem [OF that]
    obtain c' where c': "c' \<in> set categories" and v: "v = categoryScore c' axialResults"
      by blast
    from codes c' have "relatedCodes c' \<noteq> []" by (auto simp: list_all_iff)
    then have "(0::rat) < of_nat (length (relatedCodes c'))" by simp
    with categoryScore_ge [of c' axialResults] show ?thesis unfolding v by linarith
  qed
  then have nonneg: "list_all (\<lambda>x. 0 \<le> x) (map snd ?scores)"
    by (force simp: list_all_iff)
  from inScores have "coreScore \<in> set (map snd ?scores)" by force
  with nonneg have le: "coreScore \<le> sum_list (map snd ?scores)"
    by (rule member_le_sum_list)
  from pos_each [OF inScores] have pos: "0 < coreScore" .
  with le have tot: "0 < sum_list (map snd ?scores)" by simp
  have cen: "0 < coreScore / sum_list (map snd ?scores)"
      "coreScore / sum_list (map snd ?scores) \<le> 1"
    using pos le tot by simp_all
  have "identifyCoreCategory categories axialResults researchQuestion
     = Inr \<lparr> coreName = nm,
             coreDescription = catDescription category,
             centrality = coreScore / sum_list (map snd ?scores),
             relationships = coreRelationships nm (find (\<lambda>ar. phenomenon ar = nm) axialResults),
             theoreticalMemo = generateTheoreticalMemo category
               (find (\<lambda>ar. phenomenon ar = nm) axialResults) researchQuestion \<rparr>"
    using tot by (simp add: identifyCoreCategory_def Let_def sorted found foldl_plus_rat)
  with cen c nm show ?thesis by auto
qed

lemma assessTheoryCompleteness_bounds:
  assumes "0 \<le> centrality core"
  shows "0 \<le> assessTheoryCompleteness core categories axialResults
       \<and> assessTheoryCompleteness core categories axialResults \<le> 1"
proof -
  have "0 \<le> 20 + of_nat (min (length categories * 4) 20)
            + of_nat (min (length (relationships core) * 5) 20)
            + of_nat (min (length axialResults * 4) 20)
            + centrality core * 20"
    using assms by (intro add_nonneg_nonneg) simp_all
  then show ?thesis
    by (simp add: assessTheoryCompleteness_def Let_def)
qed

lemma generateRecommendations_nonempty:
  "generateRecommendations x core categories \<noteq> []"
  by (simp add: generateRecommendations_def)

lemma mapPush_nonempty_values:
  "list_all (\<lambda>(k, v). v \<noteq> []) m \<Longrightarrow> list_all (\<lambda>(k, v). v \<noteq> []) (mapPush m k xs)"
  by (induction m) auto

lemma length_mapPush: "length (mapPush m k xs) = length m"
  by (induction m) auto

lemma mapPush_fresh:
  "k \<notin> fst ` set m \<Longrightarrow> mapPush (m @ [(k, v)]) k xs = m @ [(k, v @ xs)]"
  by (induction m) auto

lemma categoryStep_props:
  assumes "list_all (\<lambda>(k, v). v \<noteq> []) groups"
  shows "list_all (\<lambda>(k, v). v \<noteq> []) (categoryStep groups c) \<and> categoryStep groups c \<noteq> []"
proof (cases "map_of groups (inferCategoryName c)")
  case None
  then have fresh: "inferCategoryName c \<notin> fst ` set groups"
    by (simp add: map_of_eq_None_iff)
  then have "categoryStep groups c = groups @ [(inferCategoryName c, [c])]"
    by (simp add: categoryStep_def Let_def None mapSet_fresh mapPush_fresh)
  with assms show ?thesis by simp
next
  case (Some v)
  then have ne: "groups \<noteq> []" by auto
  have eq: "categoryStep groups c = mapPush groups (inferCategoryName c) [c]"
    by (simp add: categoryStep_def Let_def Some)
  from ne have "mapPush groups (inferCategoryName c) [c] \<noteq> []"
    using length_mapPush [of groups "inferCategoryName c" "[c]"] by (metis length_0_conv)
  with assms show ?thesis
    by (simp add: eq mapPush_nonempty_values)
qed

lemma foldl_categoryStep_props:
  "list_all (\<lambda>(k, v). v \<noteq> []) groups \<Longrightarrow>
     list_all (\<lambda>(k, v). v \<noteq> []) (foldl categoryStep groups codes)
     \<and> (groups \<noteq> [] \<or> codes \<noteq> [] \<longrightarrow> foldl categoryStep groups codes \<noteq> [])"
proof (induction codes arbitrary: groups)
  case Nil
  then show ?case by simp
next
  case (Cons c cs)
  from categoryStep_props [OF Cons.prems, of c]
  have p: "list_all (\<lambda>(k, v). v \<noteq> []) (categoryStep groups c)"
    and n: "categoryStep groups c \<noteq> []"
    by simp_all
  from Cons.IH [OF p] n show ?case by simp
qed

lemma pushFirstMerge_props:
  "pushFirstMerge category cs merged = Some merged' \<Longrightarrow>
     list_all (\<lambda>(k, v). v \<noteq> []) merged \<Longrightarrow>
     list_all (\<lambda>(k, v). v \<noteq> []) merged' \<and> merged' \<noteq> []"
  by (induction merged arbitrary: merged') (auto split: if_splits option.splits)

lemma mapSet_nonempty_values:
  "list_all (\<lambda>(k, v). v \<noteq> []) m \<Longrightarrow> x \<noteq> [] \<Longrightarrow>
     list_all (\<lambda>(k, v). v \<noteq> []) (mapSet m k x)"
  by (induction m) auto

lemma mergeLoop_props:
  assumes groups: "list_all (\<lambda>(k, v). v \<noteq> []) groups"
  shows "set categoryNames \<subseteq> fst ` set groups \<Longrightarrow>
     list_all (\<lambda>(k, v). v \<noteq> []) merged \<Longrightarrow>
     list_all (\<lambda>(k, v). v \<noteq> []) (mergeLoop groups categoryNames merged)
     \<and> (categoryNames \<noteq> [] \<or> merged \<noteq> [] \<longrightarrow> mergeLoop groups categoryNames merged \<noteq> [])"
proof (induction categoryNames arbitrary: merged)
  case Nil
  then show ?case by simp
next
  case (Cons category rest)
  from Cons.prems(1) have "category \<in> fst ` set groups" and rest: "set rest \<subseteq> fst ` set groups"
    by simp_all
  then obtain v where v: "map_of groups category = Some v"
    by (metis map_of_eq_None_iff not_Some_eq)
  then have "(category, v) \<in> set groups" by (rule map_of_SomeD)
  with groups have vne: "v \<noteq> []" by (auto simp: list_all_iff)
  show ?case
  proof (cases "pushFirstMerge category v merged")
    case None
    have p: "list_all (\<lambda>(k, v). v \<noteq> []) (mapSet merged category v)"
      using Cons.prems(2) vne by (rule mapSet_nonempty_values)
    from Cons.IH [OF rest p] mapSet_nonempty [of merged category v]
    show ?thesis by (simp add: v None)
  next
    case (Some merged')
    from pushFirstMerge_props [OF Some Cons.prems(2)]
    have p: "list_all (\<lambda>(k, v). v \<noteq> []) merged'" and n: "merged' \<noteq> []"
      by simp_all
    from Cons.IH [OF rest p] n show ?thesis by (simp add: v Some)
  qed
qed

lemma length_categoryLoop:
  "list_all (\<lambda>(k, v). v \<noteq> []) groups \<Longrightarrow> length (categoryLoop paradigm groups) = length groups"
  by (induction groups) auto

text \<open>
  Every code is put into some category and a category with a code survives, so open
  coding produces no category only for the empty list of codes.
\<close>

lemma identifyCategories_empty_iff:
  "(identifyCategories codes paradigm = []) = (codes = [])"
proof (cases "codes = []")
  case True
  then show ?thesis
    by (simp add: identifyCategories_def groupCodesIntoCategories_def mergeSimilarCategories_def)
next
  case False
  let ?groups = "foldl categoryStep [] codes"
  from foldl_categoryStep_props [of "[]" codes] False
  have gp: "list_all (\<lambda>(k, v). v \<noteq> []) ?groups" and gn: "?groups \<noteq> []"
    by simp_all
  from gn have names: "map fst ?groups \<noteq> []" by simp
  from mergeLoop_props [OF gp, of "map fst ?groups" "[]"] names
  have mp: "list_all (\<lambda>(k, v). v \<noteq> []) (mergeSimilarCategories ?groups)"
    and mn: "mergeSimilarCategories ?groups \<noteq> []"
    by (simp_all add: mergeSimilarCategories_def)
  from length_categoryLoop [OF mp, of paradigm] mn
  have "identifyCategories codes paradigm \<noteq> []"
    by (auto simp: identifyCategories_def groupCodesIntoCategories_def)
  with False show ?thesis by simp
qed

text \<open>
  Claim C1. \<open>buildGroundedTheory\<close> fails with the "no categories" error exactly when
  open coding (\<open>identifyCategories\<close>) produces no category. Whenever open coding
  produces at least one category it returns a result, whose supporting categories are
  the categories of open coding and which is well formed; the other error of
  \<open>identifyCoreCategory\<close> never occurs. By \<open>identifyCategories_empty_iff\<close> the
  failure is the one of the empty list of codes.
\<close>

theorem buildGroundedTheory_no_categories:
  "(buildGroundedTheory codes themes researchQuestion paradigm = Inl NoCategoriesFound
      \<longleftrightarrow> identifyCategories codes paradigm = [])
   \<and> (identifyCategories codes paradigm \<noteq> [] \<longrightarrow>
        (\<exists>r. buildGroundedTheory codes themes researchQuestion paradigm = Inr r
           \<and> supportingCategories r = identifyCategories codes paradigm
           \<and> wellFormedResult r))"
proof (cases "identifyCategories codes paradigm = []")
  case True
  then show ?thesis
    by (simp add: buildGroundedTheory_def Let_def identifyCoreCategory_empty)
next
  case False
  let ?cats = "identifyCategories codes paradigm"
  let ?ax = "performAxialCoding ?cats codes"
  from identifyCoreCategory_nonempty [OF False identifyCategories_relatedCodes, of ?ax researchQuestion]
  obtain core where core: "identifyCoreCategory ?cats ?ax researchQuestion = Inr core"
    and nm: "coreName core \<in> set (map catName ?cats)"
    and cen: "0 < centrality core" "centrality core \<le> 1"
    by blast
  have b: "buildGroundedTheory codes themes researchQuestion paradigm
             = Inr (integrateTheory core ?cats ?ax researchQuestion paradigm)"
    by (simp add: buildGroundedTheory_def Let_def core)
  from cen have "0 \<le> centrality core" by simp
  from assessTheoryCompleteness_bounds [OF this, of ?cats ?ax]
  have wf: "wellFormedResult (integrateTheory core ?cats ?ax researchQuestion paradigm)"
    using nm cen identifyCategories_relatedCodes [of codes paradigm]
    by (simp add: wellFormedResult_def integrateTheory_def Let_def
        generateRecommendations_nonempty)
  have sc: "supportingCategories (integrateTheory core ?cats ?ax researchQuestion paradigm) = ?cats"
    by (simp add: integrateTheory_def Let_def)
  from False b wf sc show ?thesis by simp
qed

theorem buildGroundedTheory_no_categories_witness:
  "identifyCategories
     [\<lparr> name = ''single'', defn = ''one code'', examples = [], frequency = 1,
         ctype = constructed \<rparr>] constructivist \<noteq> []
   \<and> (\<exists>r. buildGroundedTheory
          [\<lparr> name = ''single'', defn = ''one code'', examples = [], frequency = 1,
              ctype = constructed \<rparr>] None ''Test?'' constructivist = Inr r
        \<and> wellFormedResult r)"
proof -
  have h: "identifyCategories
     [\<lparr> name = ''single'', defn = ''one code'', examples = [], frequency = 1,
         ctype = constructed \<rparr>] constructivist \<noteq> []"
    by code_simp
  from buildGroundedTheory_no_categories
    [of "[\<lparr> name = ''single'', defn = ''one code'', examples = [], frequency = 1,
           ctype = constructed \<rparr>]" None "''Test?''" constructivist] h
  show ?thesis by blast
qed







end
